theory Spec2Isabelle
  imports Main "HOL-Library.Sublist"
begin

section \<open>Errors\<close>

text \<open>
  A Go \<^verbatim>\<open>error\<close> is modelled by its message. A run-time panic (calling a nil
  function value, dereferencing the nil element of an empty list) is not an error value
  in Go; it is a constructor of its own so that the model has a branch for it.
\<close>

datatype error = Error string | NilPanic

section \<open>Output format registry (printer.go, lines 21-97)\<close>

text \<open>
  \<^verbatim>\<open>EncoderFactoryFunction\<close> is \<^verbatim>\<open>func() Encoder\<close>. The encoders are not part of this
  file; a factory is represented by the constructor call its closure makes, and the nil
  function value of the three zero-valued descriptors by \<open>None\<close>.
\<close>

datatype EncoderFactoryFunction =
    NewYamlEncoder_ConfiguredYamlPreferences
  | NewJSONEncoder_ConfiguredJSONPreferences
  | NewPropertiesEncoder_ConfiguredPropertiesPreferences
  | NewCsvEncoder_ConfiguredCsvPreferences
  | NewCsvEncoder_ConfiguredTsvPreferences
  | NewXMLEncoder_ConfiguredXMLPreferences
  | NewTomlEncoder
  | NewShellVariablesEncoder
  | NewLuaEncoder_ConfiguredLuaPreferences

record PrinterOutputFormat =
  FormalName :: string
  Names :: "string list"
  EncoderFactory :: "EncoderFactoryFunction option"

text \<open>
  The package-level variables hold pointers (\<^verbatim>\<open>&PrinterOutputFormat{...}\<close>): two
  descriptors with equal fields are still different descriptors. A pointer is modelled
  by the name of its variable, and \<open>deref\<close> reads the struct it points to.
\<close>

datatype format_ptr =
    YamlOutputFormat
  | JSONOutputFormat
  | PropsOutputFormat
  | CSVOutputFormat
  | TSVOutputFormat
  | XMLOutputFormat
  | Base64OutputFormat
  | UriOutputFormat
  | ShOutputFormat
  | TomlOutputFormat
  | ShellVariablesOutputFormat
  | LuaOutputFormat

fun deref :: "format_ptr \<Rightarrow> PrinterOutputFormat" where
  "deref YamlOutputFormat =
     \<lparr>FormalName = ''yaml'', Names = [''y'', ''yml''],
      EncoderFactory = Some NewYamlEncoder_ConfiguredYamlPreferences\<rparr>"
| "deref JSONOutputFormat =
     \<lparr>FormalName = ''json'', Names = [''j''],
      EncoderFactory = Some NewJSONEncoder_ConfiguredJSONPreferences\<rparr>"
| "deref PropsOutputFormat =
     \<lparr>FormalName = ''props'', Names = [''p'', ''properties''],
      EncoderFactory = Some NewPropertiesEncoder_ConfiguredPropertiesPreferences\<rparr>"
| "deref CSVOutputFormat =
     \<lparr>FormalName = ''csv'', Names = [''c''],
      EncoderFactory = Some NewCsvEncoder_ConfiguredCsvPreferences\<rparr>"
| "deref TSVOutputFormat =
     \<lparr>FormalName = ''tsv'', Names = [''t''],
      EncoderFactory = Some NewCsvEncoder_ConfiguredTsvPreferences\<rparr>"
| "deref XMLOutputFormat =
     \<lparr>FormalName = ''xml'', Names = [''x''],
      EncoderFactory = Some NewXMLEncoder_ConfiguredXMLPreferences\<rparr>"
| "deref Base64OutputFormat = \<lparr>FormalName = '''', Names = [], EncoderFactory = None\<rparr>"
| "deref UriOutputFormat = \<lparr>FormalName = '''', Names = [], EncoderFactory = None\<rparr>"
| "deref ShOutputFormat = \<lparr>FormalName = '''', Names = [], EncoderFactory = None\<rparr>"
| "deref TomlOutputFormat =
     \<lparr>FormalName = ''toml'', Names = [], EncoderFactory = Some NewTomlEncoder\<rparr>"
| "deref ShellVariablesOutputFormat =
     \<lparr>FormalName = ''shell'', Names = [''s'', ''sh''],
      EncoderFactory = Some NewShellVariablesEncoder\<rparr>"
| "deref LuaOutputFormat =
     \<lparr>FormalName = ''lua'', Names = [''l''],
      EncoderFactory = Some NewLuaEncoder_ConfiguredLuaPreferences\<rparr>"

definition Formats :: "format_ptr list" where
  "Formats =
     [YamlOutputFormat, JSONOutputFormat, PropsOutputFormat, CSVOutputFormat,
      TSVOutputFormat, XMLOutputFormat, Base64OutputFormat, UriOutputFormat,
      ShOutputFormat, TomlOutputFormat, ShellVariablesOutputFormat, LuaOutputFormat]"

text \<open>The \<^verbatim>\<open>for _, n := range f.Names\<close> loop of \<^verbatim>\<open>MatchesName\<close>.\<close>

fun rangeNames :: "string list \<Rightarrow> string \<Rightarrow> bool" where
  "rangeNames [] name = False"
| "rangeNames (n # ns) name = (if n = name then True else rangeNames ns name)"

definition MatchesName :: "PrinterOutputFormat \<Rightarrow> string \<Rightarrow> bool" where
  "MatchesName f name =
     (if FormalName f = name then True else rangeNames (Names f) name)"

text \<open>
  \<^verbatim>\<open>GetConfiguredEncoder\<close> calls the factory; calling a nil function value panics.
\<close>

definition GetConfiguredEncoder :: "PrinterOutputFormat \<Rightarrow> error + EncoderFactoryFunction" where
  "GetConfiguredEncoder f =
     (case EncoderFactory f of None \<Rightarrow> Inl NilPanic | Some mk \<Rightarrow> Inr mk)"

text \<open>
  \<^verbatim>\<open>GetAvailableOutputFormatString\<close>: the loop appends to \<^verbatim>\<open>formats\<close>, then
  \<^verbatim>\<open>strings.Join(formats, "|")\<close>.
\<close>

fun availableLoop :: "format_ptr list \<Rightarrow> string list \<Rightarrow> string list" where
  "availableLoop [] formats = formats"
| "availableLoop (printerFormat # rest) formats =
     (let formats1 =
            (if FormalName (deref printerFormat) \<noteq> ''''
             then formats @ [FormalName (deref printerFormat)] else formats);
          formats2 =
            (if length (Names (deref printerFormat)) \<ge> 1
             then formats1 @ [hd (Names (deref printerFormat))] else formats1)
      in availableLoop rest formats2)"

fun strings_Join :: "string list \<Rightarrow> string \<Rightarrow> string" where
  "strings_Join [] sep = ''''"
| "strings_Join [s] sep = s"
| "strings_Join (s # t # ss) sep = s @ sep @ strings_Join (t # ss) sep"

definition GetAvailableOutputFormatString :: string where
  "GetAvailableOutputFormatString = strings_Join (availableLoop Formats []) ''|''"

text \<open>
  \<^verbatim>\<open>OutputFormatFromString\<close>: the loop over \<^verbatim>\<open>Formats\<close> returns at the first match;
  after the loop the error is \<^verbatim>\<open>fmt.Errorf("unknown format '%v' please use [%v]", ...)\<close>.
\<close>

fun rangeFormats :: "format_ptr list \<Rightarrow> string \<Rightarrow> format_ptr option" where
  "rangeFormats [] format = None"
| "rangeFormats (printerFormat # rest) format =
     (if MatchesName (deref printerFormat) format then Some printerFormat
      else rangeFormats rest format)"

definition unknownFormat :: "string \<Rightarrow> error" where
  "unknownFormat format =
     Error (''unknown format '' @ [CHR 0x27] @ format @ [CHR 0x27] @ '' please use ['' @
            GetAvailableOutputFormatString @ '']'')"

definition OutputFormatFromString :: "string \<Rightarrow> error + format_ptr" where
  "OutputFormatFromString format =
     (case rangeFormats Formats format of
        Some printerFormat \<Rightarrow> Inr printerFormat
      | None \<Rightarrow> Inl (unknownFormat format))"

section \<open>Data model of the result printer\<close>

text \<open>Go strings and byte slices are sequences of bytes; a \<^typ>\<open>char\<close> is one byte.\<close>

type_synonym bytes = "char list"

definition NUL :: char where "NUL = CHR 0x00"
definition CR :: char where "CR = CHR 0x0D"
definition LF :: char where "LF = CHR 0x0A"

text \<open>
  \<^verbatim>\<open>CandidateNode\<close> is declared elsewhere in the package. The printer reads
  \<^verbatim>\<open>Tag\<close>, \<^verbatim>\<open>Value\<close>, \<^verbatim>\<open>LeadingContent\<close>, \<^verbatim>\<open>GetDocument()\<close> (a \<^verbatim>\<open>uint\<close>, only
  assigned and compared for equality here) and \<^verbatim>\<open>GetFileIndex()\<close> (an \<^verbatim>\<open>int\<close>).
  Everything else a node holds (its kind, children, anchors and aliases) lives in the
  record's extension, so all functions below are stated for
  \<open>'a CandidateNode_scheme\<close>.
\<close>

record CandidateNode =
  Tag :: string
  Value :: string
  LeadingContent :: string
  Document :: nat
  FileIndex :: int

text \<open>
  A sink is the \<^verbatim>\<open>*bufio.Writer\<close> the writer provider hands out; \<open>ident\<close> tells
  sinks apart. \<^verbatim>\<open>Write\<close> and \<^verbatim>\<open>Flush\<close> give the error the call returns, if any.
\<close>

type_synonym sink = nat

record Writer =
  ident :: sink
  Write :: "bytes \<Rightarrow> error option"
  Flush :: "error option"

text \<open>
  The \<^verbatim>\<open>io.Writer\<close> the leading content and the node are encoded to: the sink itself,
  or the private \<^verbatim>\<open>tempBuffer\<close> of NUL-separated mode.
\<close>

datatype dest = ToWriter sink | TempBuffer

text \<open>
  The collaborators are interfaces implemented outside this file. Each method is a
  function giving the bytes the call writes to its destination and the error it
  returns; the functions are arbitrary, but a collaborator answers the same call the
  same way throughout (it keeps no state of its own between calls).
  \<^verbatim>\<open>GetMatchingNodes\<close> is only ever called with the explode operation.
\<close>

record 'n Encoder =
  CanHandleAliases :: bool
  PrintDocumentSeparator :: "sink \<Rightarrow> bytes \<times> error option"
  PrintLeadingContent :: "dest \<Rightarrow> string \<Rightarrow> bytes \<times> error option"
  Encode :: "dest \<Rightarrow> 'n \<Rightarrow> bytes \<times> error option"

record 'n PrinterWriter =
  GetWriter :: "'n option \<Rightarrow> error + Writer"

record 'n DataTreeNavigator =
  GetMatchingNodes :: "'n list \<Rightarrow> error + 'n list"

text \<open>
  An \<^verbatim>\<open>io.Reader\<close>: the bytes it still yields, and the error that ends the stream
  (\<open>None\<close> for \<^verbatim>\<open>io.EOF\<close>).
\<close>

datatype Reader = Reader bytes "error option"

record 'n resultsPrinter =
  encoder :: "'n Encoder"
  printerWriter :: "'n PrinterWriter"
  firstTimePrinting :: bool
  previousDocIndex :: nat
  previousFileIndex :: int
  printedMatches :: bool
  treeNavigator :: "'n DataTreeNavigator"
  appendixReader :: "Reader option"
  nulSepOutput :: bool

text \<open>
  What a call does to its collaborators, in order: each event is one call made by the
  printer, with the bytes handed to the destination.
\<close>

datatype 'n event =
    Explode "'n list"
  | GetWriterCall "'n option"
  | DocumentSeparator sink bytes
  | LeadingContentOut dest bytes
  | EncodeOut dest 'n bytes
  | WriteCall sink bytes
  | FlushCall sink
  | CopyCall sink bytes

section \<open>The result printer (printer.go, lines 111-251)\<close>

text \<open>
  \<^verbatim>\<open>NewPrinter\<close>; the navigator \<^verbatim>\<open>NewDataTreeNavigator()\<close> is passed in. The index
  fields start as Go's zero values.
\<close>

definition NewPrinter ::
  "'n Encoder \<Rightarrow> 'n PrinterWriter \<Rightarrow> 'n DataTreeNavigator \<Rightarrow> 'n resultsPrinter" where
  "NewPrinter enc pw nav =
     \<lparr>encoder = enc, printerWriter = pw, firstTimePrinting = True,
      previousDocIndex = 0, previousFileIndex = 0, printedMatches = False,
      treeNavigator = nav, appendixReader = None, nulSepOutput = False\<rparr>"

definition SetNulSepOutput :: "'n resultsPrinter \<Rightarrow> bool \<Rightarrow> 'n resultsPrinter" where
  "SetNulSepOutput p b = p\<lparr>nulSepOutput := b\<rparr>"

definition SetAppendix :: "'n resultsPrinter \<Rightarrow> Reader option \<Rightarrow> 'n resultsPrinter" where
  "SetAppendix p reader = p\<lparr>appendixReader := reader\<rparr>"

definition PrintedAnything :: "'n resultsPrinter \<Rightarrow> bool" where
  "PrintedAnything p = printedMatches p"

text \<open>
  \<^verbatim>\<open>printNode\<close> sets the flag first and then encodes: result error, printer, bytes
  encoded to the destination.
\<close>

definition printNode ::
  "('a CandidateNode_scheme) resultsPrinter \<Rightarrow> 'a CandidateNode_scheme \<Rightarrow> dest \<Rightarrow>
   error option \<times> ('a CandidateNode_scheme) resultsPrinter \<times> bytes" where
  "printNode p node destination =
     (let p1 = p\<lparr>printedMatches :=
                  printedMatches p \<or>
                  (Tag node \<noteq> ''!!null'' \<and> (Tag node \<noteq> ''!!bool'' \<or> Value node \<noteq> ''false''))\<rparr>;
          (out, err) = Encode (encoder p1) destination node
      in (err, p1, out))"

text \<open>\<^verbatim>\<open>removeLastEOL\<close> on the contents of the buffer.\<close>

definition removeLastEOL :: "bytes \<Rightarrow> bytes" where
  "removeLastEOL data =
     (let n = length data in
      if n \<ge> 2 \<and> data ! (n - 2) = CR \<and> data ! (n - 1) = LF then take (n - 2) data
      else if n \<ge> 1 \<and> (data ! (n - 1) = CR \<or> data ! (n - 1) = LF) then take (n - 1) data
      else data)"

text \<open>\<^verbatim>\<open>bytes.IndexByte\<close>: the index of the first occurrence, or -1.\<close>

fun IndexByte :: "bytes \<Rightarrow> char \<Rightarrow> int" where
  "IndexByte [] c = -1"
| "IndexByte (b # bs) c =
     (if b = c then 0 else (let i = IndexByte bs c in if i = -1 then -1 else i + 1))"

text \<open>
  The regular expression \<^verbatim>\<open>^\$yqDocSeparator\$\<close> has no flags and only literal
  characters after the anchor: \<^verbatim>\<open>MatchString\<close> holds exactly when the text starts with
  the sixteen bytes of the sentinel.
\<close>

definition yqDocSeparator :: string where
  "yqDocSeparator = [CHR 0x24] @ ''yqDocSeparator'' @ [CHR 0x24]"

definition commentsStartWithSepExp_MatchString :: "string \<Rightarrow> bool" where
  "commentsStartWithSepExp_MatchString s = (take (length yqDocSeparator) s = yqDocSeparator)"

definition nulCharError :: error where
  "nulCharError =
     Error (''Can'' @ [CHR 0x27] @
            ''t serialize value because it contains NUL char and you are using NUL separated output'')"

text \<open>
  Lines 209-223, the body of \<^verbatim>\<open>if p.nulSepOutput\<close>, on the bytes the temporary buffer
  holds.
\<close>

definition nulSepBlock :: "Writer \<Rightarrow> bytes \<Rightarrow> error option \<times> 'n event list" where
  "nulSepBlock writer tempBuffer =
     (let tempBufferBytes = removeLastEOL tempBuffer in
      if IndexByte tempBufferBytes NUL \<noteq> -1 then (Some nulCharError, [])
      else
        (case Write writer tempBufferBytes of
           Some err \<Rightarrow> (Some err, [WriteCall (ident writer) tempBufferBytes])
         | None \<Rightarrow>
             (Write writer [NUL],
              [WriteCall (ident writer) tempBufferBytes, WriteCall (ident writer) [NUL]])))"

text \<open>
  The condition of line 189: the node's document or file index differs from the last
  seen one, and its leading content does not start with the sentinel.
\<close>

definition needsSeparator ::
  "('a CandidateNode_scheme) resultsPrinter \<Rightarrow> 'a CandidateNode_scheme \<Rightarrow> bool" where
  "needsSeparator p mappedDoc =
     (let commentStartsWithSeparator =
            commentsStartWithSepExp_MatchString (LeadingContent mappedDoc)
      in (previousDocIndex p \<noteq> Document mappedDoc \<or>
          previousFileIndex p \<noteq> FileIndex mappedDoc) \<and>
         \<not> commentStartsWithSeparator)"

text \<open>
  One iteration of the loop of \<^verbatim>\<open>PrintResults\<close> (lines 178-229): the error that ends
  the call (if any), the printer afterwards, and the calls made.
\<close>

definition printOne ::
  "('a CandidateNode_scheme) resultsPrinter \<Rightarrow> 'a CandidateNode_scheme \<Rightarrow>
   error option \<times> ('a CandidateNode_scheme) resultsPrinter \<times> ('a CandidateNode_scheme) event list" where
  "printOne p mappedDoc =
     (case GetWriter (printerWriter p) (Some mappedDoc) of
        Inl errorWriting \<Rightarrow> (Some errorWriting, p, [GetWriterCall (Some mappedDoc)])
      | Inr writer \<Rightarrow>
          (let printSep = needsSeparator p mappedDoc;
               (sepOut, sepErr) =
                 (if printSep then PrintDocumentSeparator (encoder p) (ident writer)
                  else ([], None));
               ev1 = GetWriterCall (Some mappedDoc) #
                     (if printSep then [DocumentSeparator (ident writer) sepOut] else [])
           in case sepErr of
                Some err \<Rightarrow> (Some err, p, ev1)
              | None \<Rightarrow>
                  (let destination =
                         (if nulSepOutput p then TempBuffer else ToWriter (ident writer));
                       (leadOut, leadErr) =
                         PrintLeadingContent (encoder p) destination (LeadingContent mappedDoc);
                       ev2 = ev1 @ [LeadingContentOut destination leadOut]
                   in case leadErr of
                        Some err \<Rightarrow> (Some err, p, ev2)
                      | None \<Rightarrow>
                          (let (nodeErr, p1, nodeOut) = printNode p mappedDoc destination;
                               ev3 = ev2 @ [EncodeOut destination mappedDoc nodeOut]
                           in case nodeErr of
                                Some err \<Rightarrow> (Some err, p1, ev3)
                              | None \<Rightarrow>
                                  (let (nulErr, ev4) =
                                         (if nulSepOutput p1
                                          then nulSepBlock writer (leadOut @ nodeOut)
                                          else (None, []))
                                   in case nulErr of
                                        Some err \<Rightarrow> (Some err, p1, ev3 @ ev4)
                                      | None \<Rightarrow>
                                          (Flush writer,
                                           p1\<lparr>previousDocIndex := Document mappedDoc\<rparr>,
                                           ev3 @ ev4 @ [FlushCall (ident writer)]))))))"

text \<open>The \<^verbatim>\<open>for el := matchingNodes.Front(); el != nil; el = el.Next()\<close> loop.\<close>

fun printLoop ::
  "('a CandidateNode_scheme) resultsPrinter \<Rightarrow> 'a CandidateNode_scheme list \<Rightarrow>
   error option \<times> ('a CandidateNode_scheme) resultsPrinter \<times> ('a CandidateNode_scheme) event list" where
  "printLoop p [] = (None, p, [])"
| "printLoop p (mappedDoc # rest) =
     (case printOne p mappedDoc of
        (Some err, p1, ev) \<Rightarrow> (Some err, p1, ev)
      | (None, p1, ev) \<Rightarrow>
          (case printLoop p1 rest of (res, p2, ev') \<Rightarrow> (res, p2, ev @ ev')))"

text \<open>
  Lines 233-248. \<^verbatim>\<open>io.Copy\<close> hands everything the reader yields to the sink and leaves
  the reader exhausted; a failing sink is reported before the reader's own error.
\<close>

definition pipeAppendix ::
  "'n resultsPrinter \<Rightarrow> error option \<times> 'n resultsPrinter \<times> 'n event list" where
  "pipeAppendix p =
     (case appendixReader p of
        None \<Rightarrow> (None, p, [])
      | Some (Reader content readErr) \<Rightarrow>
          (case GetWriter (printerWriter p) None of
             Inl err \<Rightarrow> (Some err, p, [GetWriterCall None])
           | Inr writer \<Rightarrow>
               (let p1 = p\<lparr>appendixReader := Some (Reader [] readErr)\<rparr>;
                    ev = [GetWriterCall None, CopyCall (ident writer) content];
                    copyErr = (case Write writer content of Some err \<Rightarrow> Some err | None \<Rightarrow> readErr)
                in case copyErr of
                     Some err \<Rightarrow> (Some err, p1, ev)
                   | None \<Rightarrow> (Flush writer, p1, ev @ [FlushCall (ident writer)]))))"

text \<open>
  Lines 169-174. \<^verbatim>\<open>matchingNodes.Front()\<close> is nil on an empty list, and reading its
  \<^verbatim>\<open>Value\<close> panics.
\<close>

definition primeFirstTime ::
  "('a CandidateNode_scheme) resultsPrinter \<Rightarrow> 'a CandidateNode_scheme list \<Rightarrow>
   error + ('a CandidateNode_scheme) resultsPrinter" where
  "primeFirstTime p matchingNodes =
     (if firstTimePrinting p then
        (case matchingNodes of
           [] \<Rightarrow> Inl NilPanic
         | node # _ \<Rightarrow>
             Inr (p\<lparr>previousDocIndex := Document node,
                    previousFileIndex := FileIndex node,
                    firstTimePrinting := False\<rparr>))
      else Inr p)"

text \<open>
  Lines 159-167: the sequence the rest of the call works on, and whether the explode
  operation is run to get it.
\<close>

definition explodeIfNeeded ::
  "'n resultsPrinter \<Rightarrow> 'n list \<Rightarrow> error + 'n list" where
  "explodeIfNeeded p matchingNodes =
     (if \<not> CanHandleAliases (encoder p)
      then GetMatchingNodes (treeNavigator p) matchingNodes
      else Inr matchingNodes)"

text \<open>
  \<^verbatim>\<open>PrintResults\<close>: the error returned (\<open>None\<close> for nil), the printer afterwards and the
  calls made, in order.
\<close>

definition PrintResults ::
  "('a CandidateNode_scheme) resultsPrinter \<Rightarrow> 'a CandidateNode_scheme list \<Rightarrow>
   error option \<times> ('a CandidateNode_scheme) resultsPrinter \<times> ('a CandidateNode_scheme) event list" where
  "PrintResults p matchingNodes =
     (if length matchingNodes = 0 then (None, p, [])
      else
        (let ev0 = (if \<not> CanHandleAliases (encoder p) then [Explode matchingNodes] else [])
         in case explodeIfNeeded p matchingNodes of
              Inl err \<Rightarrow> (Some err, p, ev0)
            | Inr nodes \<Rightarrow>
                (case primeFirstTime p nodes of
                   Inl err \<Rightarrow> (Some err, p, ev0)
                 | Inr p1 \<Rightarrow>
                     (case printLoop p1 nodes of
                        (Some err, p2, ev1) \<Rightarrow> (Some err, p2, ev0 @ ev1)
                      | (None, p2, ev1) \<Rightarrow>
                          (case pipeAppendix p2 of
                             (res, p3, ev2) \<Rightarrow> (res, p3, ev0 @ ev1 @ ev2))))))"

section \<open>Observations on the calls made\<close>

text \<open>The bytes handed to sink \<open>s\<close>, in order, by whichever call.\<close>

fun eventBytes :: "sink \<Rightarrow> 'n event \<Rightarrow> bytes" where
  "eventBytes s (DocumentSeparator t b) = (if t = s then b else [])"
| "eventBytes s (LeadingContentOut d b) = (if d = ToWriter s then b else [])"
| "eventBytes s (EncodeOut d n b) = (if d = ToWriter s then b else [])"
| "eventBytes s (WriteCall t b) = (if t = s then b else [])"
| "eventBytes s (CopyCall t b) = (if t = s then b else [])"
| "eventBytes s (Explode ns) = []"
| "eventBytes s (GetWriterCall n) = []"
| "eventBytes s (FlushCall t) = []"

definition writtenTo :: "sink \<Rightarrow> 'n event list \<Rightarrow> bytes" where
  "writtenTo s evs = concat (map (eventBytes s) evs)"

fun isSeparator :: "'n event \<Rightarrow> bool" where
  "isSeparator (DocumentSeparator t b) = True"
| "isSeparator e = False"

definition separatorEmissions :: "'n event list \<Rightarrow> nat" where
  "separatorEmissions evs = length (filter isSeparator evs)"

fun isWrite :: "'n event \<Rightarrow> bool" where
  "isWrite (WriteCall t b) = True"
| "isWrite e = False"

fun isExplode :: "'n event \<Rightarrow> bool" where
  "isExplode (Explode ns) = True"
| "isExplode e = False"

text \<open>The nodes a sink was requested for, and the nodes \<^verbatim>\<open>printNode\<close> was called on.\<close>

fun requestedNode :: "'n event \<Rightarrow> 'n list" where
  "requestedNode (GetWriterCall (Some n)) = [n]"
| "requestedNode e = []"

definition requestedNodes :: "'n event list \<Rightarrow> 'n list" where
  "requestedNodes evs = concat (map requestedNode evs)"

fun encodedNode :: "'n event \<Rightarrow> 'n list" where
  "encodedNode (EncodeOut d n b) = [n]"
| "encodedNode e = []"

definition encodedNodes :: "'n event list \<Rightarrow> 'n list" where
  "encodedNodes evs = concat (map encodedNode evs)"

text \<open>The rule of \<^verbatim>\<open>printNode\<close> for a node that counts as printed.\<close>

definition countsAsPrinted :: "'a CandidateNode_scheme \<Rightarrow> bool" where
  "countsAsPrinted node =
     (Tag node \<noteq> ''!!null'' \<and> (Tag node \<noteq> ''!!bool'' \<or> Value node \<noteq> ''false''))"

section \<open>Reference definitions, in the words of the specification\<close>

text \<open>
  The number of document boundaries of a walk: the nodes whose (document index, file
  index) pair differs from that of the node before them, not counting a node whose
  leading content starts with the sentinel. \<open>prev\<close> is the pair of the node processed
  last.
\<close>

fun boundaryTransitions :: "nat \<times> int \<Rightarrow> 'a CandidateNode_scheme list \<Rightarrow> nat" where
  "boundaryTransitions prev [] = 0"
| "boundaryTransitions prev (n # ns) =
     (if prev \<noteq> (Document n, FileIndex n) \<and>
         \<not> commentsStartWithSepExp_MatchString (LeadingContent n)
      then 1 else 0) + boundaryTransitions (Document n, FileIndex n) ns"

text \<open>
  For a printer that has processed nothing yet, the first node is the implicit initial
  document: it is no transition.
\<close>

definition initialTransitions :: "'a CandidateNode_scheme list \<Rightarrow> nat" where
  "initialTransitions ns =
     (case ns of [] \<Rightarrow> 0 | n # _ \<Rightarrow> boundaryTransitions (Document n, FileIndex n) ns)"

text \<open>
  A record of the NUL-separated stream: leading content and encoded node, at most one
  trailing line terminator removed, then one NUL byte.
\<close>

definition nulRecord ::
  "('a CandidateNode_scheme) Encoder \<Rightarrow> 'a CandidateNode_scheme \<Rightarrow> bytes" where
  "nulRecord enc n =
     removeLastEOL (fst (PrintLeadingContent enc TempBuffer (LeadingContent n)) @
                    fst (Encode enc TempBuffer n)) @ [NUL]"

text \<open>A stream that consists solely of the records of the nodes.\<close>

definition recordsOnly ::
  "('a CandidateNode_scheme) Encoder \<Rightarrow> 'a CandidateNode_scheme list \<Rightarrow> bytes" where
  "recordsOnly enc ns = concat (map (nulRecord enc) ns)"

text \<open>
  The stream sink \<open>s\<close> receives in NUL-separated mode: for each node routed to \<open>s\<close>, the
  encoder's document separator when the node needs one, then the node's record.
  \<open>prevDoc\<close> is the document index seen last.
\<close>

fun nulStream ::
  "('a CandidateNode_scheme) resultsPrinter \<Rightarrow> sink \<Rightarrow> nat \<Rightarrow>
   'a CandidateNode_scheme list \<Rightarrow> bytes" where
  "nulStream p s prevDoc [] = []"
| "nulStream p s prevDoc (n # ns) =
     (case GetWriter (printerWriter p) (Some n) of
        Inl err \<Rightarrow> []
      | Inr w \<Rightarrow>
          (if ident w = s
           then (if needsSeparator (p\<lparr>previousDocIndex := prevDoc\<rparr>) n
                 then fst (PrintDocumentSeparator (encoder p) s) else []) @
                nulRecord (encoder p) n
           else [])) @
     nulStream p s (Document n) ns"

text \<open>The bytes of the registered appendix, when the sink for "no node" is \<open>s\<close>.\<close>

definition appendixBytes :: "'n resultsPrinter \<Rightarrow> sink \<Rightarrow> bytes" where
  "appendixBytes p s =
     (case appendixReader p of
        None \<Rightarrow> []
      | Some (Reader content readErr) \<Rightarrow>
          (case GetWriter (printerWriter p) None of
             Inl err \<Rightarrow> []
           | Inr w \<Rightarrow> (if ident w = s then content else [])))"

section \<open>Collaborators and nodes for the concrete runs\<close>

text \<open>
  A line-oriented encoder (the scalar value and a line feed; the leading content
  verbatim; \<^verbatim>\<open>---\<close> as document separator), one sink that never fails, and an explode
  operation that leaves alias-free nodes as they are, or fails.
\<close>

definition lineEncoder :: "bool \<Rightarrow> CandidateNode Encoder" where
  "lineEncoder aliases =
     \<lparr>CanHandleAliases = aliases,
      PrintDocumentSeparator = (\<lambda>w. (''---'' @ [LF], None)),
      PrintLeadingContent = (\<lambda>d s. (s, None)),
      Encode = (\<lambda>d n. (Value n @ [LF], None))\<rparr>"

definition stdoutWriter :: Writer where
  "stdoutWriter = \<lparr>ident = 0, Write = (\<lambda>b. None), Flush = None\<rparr>"

definition singleSink :: "CandidateNode PrinterWriter" where
  "singleSink = \<lparr>GetWriter = (\<lambda>n. Inr stdoutWriter)\<rparr>"

definition identityNavigator :: "CandidateNode DataTreeNavigator" where
  "identityNavigator = \<lparr>GetMatchingNodes = (\<lambda>ns. Inr ns)\<rparr>"

definition failingNavigator :: "CandidateNode DataTreeNavigator" where
  "failingNavigator = \<lparr>GetMatchingNodes = (\<lambda>ns. Inl (Error ''explode failed''))\<rparr>"

definition scalarNode :: "string \<Rightarrow> string \<Rightarrow> nat \<Rightarrow> int \<Rightarrow> CandidateNode" where
  "scalarNode tag v doc file =
     \<lparr>Tag = tag, Value = v, LeadingContent = [], Document = doc, FileIndex = file\<rparr>"

section \<open>Format resolution\<close>

lemma rangeNames_iff: "rangeNames ns name \<longleftrightarrow> name \<in> set ns"
  by (induction ns) auto

lemma MatchesName_iff:
  "MatchesName d name \<longleftrightarrow> name = FormalName d \<or> name \<in> set (Names d)"
  by (auto simp: MatchesName_def rangeNames_iff)

lemma rangeFormats_None_iff:
  "rangeFormats fs name = None \<longleftrightarrow> (\<forall>f\<in>set fs. \<not> MatchesName (deref f) name)"
  by (induction fs) auto

text \<open>
  The loop returns the descriptor at the first index that matches: a result \<open>f\<close> stands
  at some index \<open>i\<close>, matches, and nothing before \<open>i\<close> matches.
\<close>

lemma rangeFormats_Some_iff:
  "rangeFormats fs name = Some f \<longleftrightarrow>
     (\<exists>i<length fs. fs ! i = f \<and> MatchesName (deref f) name \<and>
        (\<forall>j<i. \<not> MatchesName (deref (fs ! j)) name))"
  (is "?lhs fs \<longleftrightarrow> ?rhs fs")
proof (induction fs)
  case Nil
  show ?case by simp
next
  case (Cons g gs)
  show ?case
  proof (cases "MatchesName (deref g) name")
    case True
    have "?rhs (g # gs) \<longleftrightarrow> g = f"
    proof
      assume "?rhs (g # gs)"
      then obtain i where i: "(g # gs) ! i = f"
        and before: "\<forall>j<i. \<not> MatchesName (deref ((g # gs) ! j)) name"
        by blast
      have "i = 0"
      proof (rule ccontr)
        assume "i \<noteq> 0"
        then have "0 < i" by simp
        with before have "\<not> MatchesName (deref ((g # gs) ! 0)) name" by blast
        with True show False by simp
      qed
      with i show "g = f" by simp
    next
      assume "g = f"
      with True show "?rhs (g # gs)" by (intro exI[of _ 0]) simp
    qed
    with True show ?thesis by auto
  next
    case False
    have "?rhs (g # gs) \<longleftrightarrow> ?rhs gs"
    proof
      assume "?rhs (g # gs)"
      then obtain i where i: "i < length (g # gs)" "(g # gs) ! i = f"
        "MatchesName (deref f) name"
        and before: "\<forall>j<i. \<not> MatchesName (deref ((g # gs) ! j)) name"
        by blast
      from i False obtain k where k: "i = Suc k" by (cases i) auto
      have "\<forall>j<k. \<not> MatchesName (deref (gs ! j)) name"
      proof (intro allI impI)
        fix j assume "j < k"
        then have "Suc j < i" using k by simp
        with before have "\<not> MatchesName (deref ((g # gs) ! Suc j)) name" by blast
        then show "\<not> MatchesName (deref (gs ! j)) name" by simp
      qed
      with i k show "?rhs gs" by (intro exI[of _ k]) simp
    next
      assume "?rhs gs"
      then obtain k where k: "k < length gs" "gs ! k = f" "MatchesName (deref f) name"
        and before: "\<forall>j<k. \<not> MatchesName (deref (gs ! j)) name"
        by blast
      have "\<forall>j<Suc k. \<not> MatchesName (deref ((g # gs) ! j)) name"
      proof (intro allI impI)
        fix j assume "j < Suc k"
        then show "\<not> MatchesName (deref ((g # gs) ! j)) name"
          using False before by (cases j) auto
      qed
      with k show "?rhs (g # gs)" by (intro exI[of _ "Suc k"]) simp
    qed
    with False Cons.IH show ?thesis by simp
  qed
qed

lemma aliases_resolve_to_their_format:
  "\<forall>f\<in>set Formats. \<forall>a\<in>set (Names (deref f)).
     OutputFormatFromString (FormalName (deref f)) = Inr f \<and>
     OutputFormatFromString a = Inr f"
  by (simp add: OutputFormatFromString_def Formats_def MatchesName_def)

lemma available_formats:
  "availableLoop Formats [] =
     [''yaml'', ''y'', ''json'', ''j'', ''props'', ''p'', ''csv'', ''c'', ''tsv'', ''t'',
      ''xml'', ''x'', ''toml'', ''shell'', ''s'', ''lua'', ''l'']"
  by (simp add: Formats_def)

text \<open>
  C9. For every registered format, resolving its canonical name and resolving any of its
  aliases give the same descriptor. Resolution returns the descriptor \<open>f\<close> exactly when
  \<open>f\<close> stands at an index of the list in declaration order, the queried name equals its
  canonical name or is one of its aliases, and no descriptor at an earlier index has the
  name; a descriptor matches a name only by equality with its canonical name or with one
  of its aliases.
\<close>

theorem C9_format_resolution:
  "(\<forall>f\<in>set Formats. \<forall>a\<in>set (Names (deref f)).
      OutputFormatFromString (FormalName (deref f)) = OutputFormatFromString a) \<and>
   (OutputFormatFromString name = Inr f \<longleftrightarrow>
      (\<exists>i<length Formats. Formats ! i = f \<and>
         (name = FormalName (deref f) \<or> name \<in> set (Names (deref f))) \<and>
         (\<forall>j<i. name \<noteq> FormalName (deref (Formats ! j)) \<and>
                name \<notin> set (Names (deref (Formats ! j)))))) \<and>
   (MatchesName d name \<longleftrightarrow> name = FormalName d \<or> name \<in> set (Names d))"
proof (intro conjI)
  show "\<forall>f\<in>set Formats. \<forall>a\<in>set (Names (deref f)).
      OutputFormatFromString (FormalName (deref f)) = OutputFormatFromString a"
    using aliases_resolve_to_their_format by simp
next
  have "OutputFormatFromString name = Inr f \<longleftrightarrow> rangeFormats Formats name = Some f"
    by (simp add: OutputFormatFromString_def split: option.splits)
  then show "OutputFormatFromString name = Inr f \<longleftrightarrow>
      (\<exists>i<length Formats. Formats ! i = f \<and>
         (name = FormalName (deref f) \<or> name \<in> set (Names (deref f))) \<and>
         (\<forall>j<i. name \<noteq> FormalName (deref (Formats ! j)) \<and>
                name \<notin> set (Names (deref (Formats ! j)))))"
    by (simp add: rangeFormats_Some_iff MatchesName_iff)
next
  show "MatchesName d name \<longleftrightarrow> name = FormalName d \<or> name \<in> set (Names d)"
    by (rule MatchesName_iff)
qed

theorem C9_format_resolution_witness:
  "PropsOutputFormat \<in> set Formats \<and>
   ''properties'' \<in> set (Names (deref PropsOutputFormat)) \<and>
   OutputFormatFromString ''props'' = OutputFormatFromString ''properties'' \<and>
   OutputFormatFromString ''properties'' = Inr PropsOutputFormat \<and>
   Formats ! 2 = PropsOutputFormat \<and>
   \<not> MatchesName (deref PropsOutputFormat) ''prop''"
  using C9_format_resolution [of "''properties''" PropsOutputFormat "deref PropsOutputFormat"]
  by (simp add: Formats_def OutputFormatFromString_def MatchesName_def)

text \<open>
  C10. Resolving the empty name succeeds: it returns the Base64 descriptor, the first
  descriptor in declaration order whose canonical name is empty; its encoder factory is
  nil, and constructing an encoder from it panics. The unknown-format error is returned
  exactly for the names that no descriptor matches, and the names it lists have no entry
  for the three empty-named descriptors.
\<close>

theorem C10_empty_name_resolves:
  "OutputFormatFromString [] = Inr Base64OutputFormat \<and>
   find (\<lambda>f. FormalName (deref f) = []) Formats = Some Base64OutputFormat \<and>
   FormalName (deref Base64OutputFormat) = [] \<and>
   EncoderFactory (deref Base64OutputFormat) = None \<and>
   GetConfiguredEncoder (deref Base64OutputFormat) = Inl NilPanic \<and>
   (OutputFormatFromString name = Inl e \<longleftrightarrow>
      (\<forall>f\<in>set Formats. \<not> MatchesName (deref f) name) \<and> e = unknownFormat name) \<and>
   unknownFormat name =
     Error (''unknown format '' @ [CHR 0x27] @ name @ [CHR 0x27] @
            '' please use [yaml|y|json|j|props|p|csv|c|tsv|t|xml|x|toml|shell|s|lua|l]'') \<and>
   [] \<notin> set (availableLoop Formats []) \<and>
   length (availableLoop Formats []) = 17"
proof (intro conjI)
  show "OutputFormatFromString [] = Inr Base64OutputFormat"
    by (simp add: OutputFormatFromString_def Formats_def MatchesName_def)
  show "find (\<lambda>f. FormalName (deref f) = []) Formats = Some Base64OutputFormat"
    by (simp add: Formats_def)
  show "FormalName (deref Base64OutputFormat) = []" by simp
  show "EncoderFactory (deref Base64OutputFormat) = None" by simp
  show "GetConfiguredEncoder (deref Base64OutputFormat) = Inl NilPanic"
    by (simp add: GetConfiguredEncoder_def)
  show "OutputFormatFromString name = Inl e \<longleftrightarrow>
      (\<forall>f\<in>set Formats. \<not> MatchesName (deref f) name) \<and> e = unknownFormat name"
    using rangeFormats_None_iff [of Formats name]
    by (auto simp: OutputFormatFromString_def split: option.splits)
  have "GetAvailableOutputFormatString =
      ''yaml|y|json|j|props|p|csv|c|tsv|t|xml|x|toml|shell|s|lua|l''"
    by (simp add: GetAvailableOutputFormatString_def available_formats)
  then show "unknownFormat name =
     Error (''unknown format '' @ [CHR 0x27] @ name @ [CHR 0x27] @
            '' please use [yaml|y|json|j|props|p|csv|c|tsv|t|xml|x|toml|shell|s|lua|l]'')"
    by (simp add: unknownFormat_def)
  show "[] \<notin> set (availableLoop Formats [])"
    by (simp add: available_formats)
  show "length (availableLoop Formats []) = 17"
    by (simp add: available_formats)
qed

theorem C10_empty_name_resolves_witness:
  "OutputFormatFromString ''yamll'' = Inl (unknownFormat ''yamll'') \<and>
   OutputFormatFromString [] = Inr Base64OutputFormat"
  using C10_empty_name_resolves [of "''yamll''" "unknownFormat ''yamll''"]
  by (simp add: Formats_def MatchesName_def)

section \<open>The loop body and the loop\<close>

lemma IndexByte_ge: "IndexByte bs c \<ge> -1"
  by (induction bs) (auto simp: Let_def)

lemma IndexByte_iff: "IndexByte bs c \<noteq> -1 \<longleftrightarrow> c \<in> set bs"
proof (induction bs)
  case Nil
  show ?case by simp
next
  case (Cons b bs)
  have "IndexByte bs c + 1 \<noteq> -1" using IndexByte_ge [of bs c] by arith
  with Cons show ?case by (auto simp: Let_def)
qed

text \<open>An iteration changes two fields only: the printed flag and the document index.\<close>

lemma printOne_fields:
  assumes "printOne p n = (r, p', ev)"
  shows "encoder p' = encoder p" "printerWriter p' = printerWriter p"
    "treeNavigator p' = treeNavigator p" "appendixReader p' = appendixReader p"
    "nulSepOutput p' = nulSepOutput p" "firstTimePrinting p' = firstTimePrinting p"
    "previousFileIndex p' = previousFileIndex p"
  using assms
  by (auto simp: printOne_def printNode_def Let_def
      split: sum.splits prod.splits option.splits if_splits)

text \<open>What a successful iteration has done.\<close>

lemma printOne_success:
  assumes "printOne p n = (None, p', ev)"
  shows "\<exists>w sepOut leadOut nodeOut.
           GetWriter (printerWriter p) (Some n) = Inr w \<and>
           (needsSeparator p n \<longrightarrow>
              PrintDocumentSeparator (encoder p) (ident w) = (sepOut, None)) \<and>
           PrintLeadingContent (encoder p)
             (if nulSepOutput p then TempBuffer else ToWriter (ident w)) (LeadingContent n) =
             (leadOut, None) \<and>
           Encode (encoder p)
             (if nulSepOutput p then TempBuffer else ToWriter (ident w)) n = (nodeOut, None) \<and>
           Flush w = None \<and>
           p' = p\<lparr>printedMatches := printedMatches p \<or> countsAsPrinted n,
                  previousDocIndex := Document n\<rparr> \<and>
           ev = GetWriterCall (Some n) #
                (if needsSeparator p n then [DocumentSeparator (ident w) sepOut] else []) @
                [LeadingContentOut
                   (if nulSepOutput p then TempBuffer else ToWriter (ident w)) leadOut,
                 EncodeOut
                   (if nulSepOutput p then TempBuffer else ToWriter (ident w)) n nodeOut] @
                (if nulSepOutput p
                 then [WriteCall (ident w) (removeLastEOL (leadOut @ nodeOut)),
                       WriteCall (ident w) [NUL]]
                 else []) @
                [FlushCall (ident w)] \<and>
           (nulSepOutput p \<longrightarrow>
              NUL \<notin> set (removeLastEOL (leadOut @ nodeOut)) \<and>
              Write w (removeLastEOL (leadOut @ nodeOut)) = None \<and> Write w [NUL] = None)"
  using assms
  by (auto simp: printOne_def printNode_def nulSepBlock_def countsAsPrinted_def Let_def
      IndexByte_iff split: sum.splits prod.splits option.splits if_splits)

text \<open>
  Whatever its outcome, an iteration requests the sink of its node and of no other,
  never runs the explode operation, calls \<^verbatim>\<open>printNode\<close> on its node at most once, and
  leaves the flag set exactly when it was set before or \<^verbatim>\<open>printNode\<close> was called on a
  node that counts.
\<close>

lemma printOne_events:
  assumes "printOne p n = (r, p', ev)"
  shows "requestedNodes ev = [n]" "filter isExplode ev = []"
    "encodedNodes ev = [] \<or> encodedNodes ev = [n]"
    "r = None \<longrightarrow> encodedNodes ev = [n]"
    "printedMatches p' \<longleftrightarrow> printedMatches p \<or> (\<exists>m\<in>set (encodedNodes ev). countsAsPrinted m)"
  using assms
  by (auto simp: printOne_def printNode_def nulSepBlock_def countsAsPrinted_def Let_def
      requestedNodes_def encodedNodes_def
      split: sum.splits prod.splits option.splits if_splits)

lemma printLoop_fields:
  assumes "printLoop p ns = (r, p', ev)"
  shows "encoder p' = encoder p \<and> printerWriter p' = printerWriter p \<and>
    treeNavigator p' = treeNavigator p \<and> appendixReader p' = appendixReader p \<and>
    nulSepOutput p' = nulSepOutput p \<and> firstTimePrinting p' = firstTimePrinting p \<and>
    previousFileIndex p' = previousFileIndex p"
  using assms
proof (induction ns arbitrary: p r p' ev)
  case Nil
  then show ?case by simp
next
  case (Cons n ns)
  obtain r1 p1 ev1 where one: "printOne p n = (r1, p1, ev1)"
    by (cases "printOne p n") auto
  note f = printOne_fields [OF one]
  show ?case
  proof (cases r1)
    case (Some e)
    with one Cons.prems have "p' = p1" by simp
    with f show ?thesis by simp
  next
    case None
    obtain r2 p2 ev2 where rest: "printLoop p1 ns = (r2, p2, ev2)"
      by (cases "printLoop p1 ns") auto
    with one None Cons.prems have "p' = p2" by simp
    with Cons.IH [OF rest] f show ?thesis by simp
  qed
qed

lemma requestedNodes_append [simp]:
  "requestedNodes (xs @ ys) = requestedNodes xs @ requestedNodes ys"
  by (simp add: requestedNodes_def)

lemma encodedNodes_append [simp]:
  "encodedNodes (xs @ ys) = encodedNodes xs @ encodedNodes ys"
  by (simp add: encodedNodes_def)

lemma writtenTo_append [simp]: "writtenTo s (xs @ ys) = writtenTo s xs @ writtenTo s ys"
  by (simp add: writtenTo_def)

lemma separatorEmissions_append [simp]:
  "separatorEmissions (xs @ ys) = separatorEmissions xs + separatorEmissions ys"
  by (simp add: separatorEmissions_def)

lemma writtenTo_Nil [simp]: "writtenTo s [] = []"
  by (simp add: writtenTo_def)

lemma writtenTo_Cons [simp]: "writtenTo s (e # ev) = eventBytes s e @ writtenTo s ev"
  by (simp add: writtenTo_def)

lemma separatorEmissions_Nil [simp]: "separatorEmissions [] = 0"
  by (simp add: separatorEmissions_def)

lemma separatorEmissions_Cons [simp]:
  "separatorEmissions (e # ev) = (if isSeparator e then 1 else 0) + separatorEmissions ev"
  by (simp add: separatorEmissions_def)

lemma encodedNodes_Explode [simp]: "encodedNodes (Explode ms # ev) = encodedNodes ev"
  by (simp add: encodedNodes_def)

lemma requestedNodes_Explode [simp]: "requestedNodes (Explode ms # ev) = requestedNodes ev"
  by (simp add: requestedNodes_def)

text \<open>
  The loop walks the sequence from the front: the nodes a sink was requested for, and
  the nodes \<^verbatim>\<open>printNode\<close> was called on, are prefixes of it, and the whole of it when the
  loop ends without an error.
\<close>

lemma printLoop_events:
  assumes "printLoop p ns = (r, p', ev)"
  shows "prefix (requestedNodes ev) ns \<and> prefix (encodedNodes ev) ns \<and>
    filter isExplode ev = [] \<and>
    (r = None \<longrightarrow> requestedNodes ev = ns \<and> encodedNodes ev = ns) \<and>
    (printedMatches p' \<longleftrightarrow>
       printedMatches p \<or> (\<exists>m\<in>set (encodedNodes ev). countsAsPrinted m))"
  using assms
proof (induction ns arbitrary: p r p' ev)
  case Nil
  then show ?case by (simp add: requestedNodes_def encodedNodes_def)
next
  case (Cons n ns)
  obtain r1 p1 ev1 where one: "printOne p n = (r1, p1, ev1)"
    by (cases "printOne p n") auto
  note e = printOne_events [OF one]
  show ?case
  proof (cases r1)
    case (Some err)
    with one Cons.prems have eq: "r = Some err" "p' = p1" "ev = ev1" by simp_all
    from e(3) have "prefix (encodedNodes ev1) (n # ns)" by auto
    with e eq show ?thesis by simp
  next
    case None
    obtain r2 p2 ev2 where rest: "printLoop p1 ns = (r2, p2, ev2)"
      by (cases "printLoop p1 ns") auto
    with one None Cons.prems have eq: "r = r2" "p' = p2" "ev = ev1 @ ev2" by simp_all
    from e(4) None have enc: "encodedNodes ev1 = [n]" by simp
    from Cons.IH [OF rest] e(1,2,5) enc eq show ?thesis by auto
  qed
qed

lemma pipeAppendix_events:
  assumes "pipeAppendix p = (r, p', ev)"
  shows "requestedNodes ev = [] \<and> encodedNodes ev = [] \<and> filter isExplode ev = [] \<and>
    separatorEmissions ev = 0 \<and>
    printedMatches p' = printedMatches p \<and> previousDocIndex p' = previousDocIndex p \<and>
    previousFileIndex p' = previousFileIndex p \<and> firstTimePrinting p' = firstTimePrinting p"
  using assms
  by (auto simp: pipeAppendix_def Let_def requestedNodes_def encodedNodes_def
      separatorEmissions_def split: option.splits Reader.splits sum.splits)

lemma primeFirstTime_fields:
  assumes "primeFirstTime p ns = Inr p1"
  shows "encoder p1 = encoder p \<and> printerWriter p1 = printerWriter p \<and>
    treeNavigator p1 = treeNavigator p \<and> appendixReader p1 = appendixReader p \<and>
    nulSepOutput p1 = nulSepOutput p \<and> printedMatches p1 = printedMatches p \<and>
    \<not> firstTimePrinting p1"
  using assms by (auto simp: primeFirstTime_def split: if_splits list.splits)

section \<open>A whole call\<close>

text \<open>The four ways a call on a non-empty sequence can end.\<close>

lemma PrintResults_nonempty:
  assumes "PrintResults p ms = (res, p', evs)" and "ms \<noteq> []"
  obtains
    (explodeFails) err where
      "explodeIfNeeded p ms = Inl err" "res = Some err" "p' = p"
      "evs = (if \<not> CanHandleAliases (encoder p) then [Explode ms] else [])"
  | (frontIsNil) nodes err where
      "explodeIfNeeded p ms = Inr nodes" "primeFirstTime p nodes = Inl err"
      "res = Some err" "p' = p"
      "evs = (if \<not> CanHandleAliases (encoder p) then [Explode ms] else [])"
  | (loopFails) nodes p1 err ev1 where
      "explodeIfNeeded p ms = Inr nodes" "primeFirstTime p nodes = Inr p1"
      "printLoop p1 nodes = (Some err, p', ev1)" "res = Some err"
      "evs = (if \<not> CanHandleAliases (encoder p) then [Explode ms] else []) @ ev1"
  | (loopDone) nodes p1 p2 ev1 ev2 where
      "explodeIfNeeded p ms = Inr nodes" "primeFirstTime p nodes = Inr p1"
      "printLoop p1 nodes = (None, p2, ev1)" "pipeAppendix p2 = (res, p', ev2)"
      "evs = (if \<not> CanHandleAliases (encoder p) then [Explode ms] else []) @ ev1 @ ev2"
proof -
  let ?ev0 = "if \<not> CanHandleAliases (encoder p) then [Explode ms] else []"
  show ?thesis
  proof (cases "explodeIfNeeded p ms")
    case (Inl err)
    with assms have "res = Some err" "p' = p" "evs = ?ev0"
      by (auto simp: PrintResults_def Let_def)
    with Inl show ?thesis by (rule explodeFails)
  next
    case nodes: (Inr nodes)
    show ?thesis
    proof (cases "primeFirstTime p nodes")
      case (Inl err)
      with assms nodes have "res = Some err" "p' = p" "evs = ?ev0"
        by (auto simp: PrintResults_def Let_def)
      with nodes Inl show ?thesis by (rule frontIsNil)
    next
      case p1: (Inr p1)
      obtain r p2 ev1 where loop: "printLoop p1 nodes = (r, p2, ev1)"
        by (cases "printLoop p1 nodes") auto
      show ?thesis
      proof (cases r)
        case (Some err)
        with assms nodes p1 loop have "res = Some err" "p' = p2" "evs = ?ev0 @ ev1"
          by (auto simp: PrintResults_def Let_def)
        with nodes p1 loop Some show ?thesis by (intro loopFails) simp_all
      next
        case None
        obtain r3 p3 ev2 where app: "pipeAppendix p2 = (r3, p3, ev2)"
          by (cases "pipeAppendix p2") auto
        with assms nodes p1 loop None
        have "res = r3" "p' = p3" "evs = ?ev0 @ ev1 @ ev2"
          by (auto simp: PrintResults_def Let_def)
        with nodes p1 loop None app show ?thesis by (intro loopDone) simp_all
      qed
    qed
  qed
qed

lemma PrintResults_empty: "PrintResults p [] = (None, p, [])"
  by (simp add: PrintResults_def)

lemma printLoop_last_document:
  assumes "printLoop p ns = (None, p', ev)" "ns \<noteq> []"
  shows "previousDocIndex p' = Document (last ns)"
  using assms
proof (induction ns arbitrary: p p' ev)
  case Nil
  then show ?case by simp
next
  case (Cons n ns)
  obtain r1 p1 ev1 where one: "printOne p n = (r1, p1, ev1)"
    by (cases "printOne p n") auto
  with Cons.prems have r1: "r1 = None" by (cases r1) auto
  obtain r2 p2 ev2 where rest: "printLoop p1 ns = (r2, p2, ev2)"
    by (cases "printLoop p1 ns") auto
  with one r1 Cons.prems have eq: "r2 = None" "p' = p2" by simp_all
  show ?case
  proof (cases "ns = []")
    case True
    with rest eq have "p' = p1" by simp
    moreover from printOne_success [of p n p1 ev1] one r1
    have "previousDocIndex p1 = Document n" by auto
    ultimately show ?thesis using True by simp
  next
    case False
    with Cons.IH [of p1 p2 ev2] rest eq show ?thesis by simp
  qed
qed

text \<open>
  A call leaves the file index as the priming step set it, and the printer primed if
  the priming step was reached.
\<close>

lemma PrintResults_file_index:
  assumes run: "PrintResults p ms = (res, p', evs)" and ne: "ms \<noteq> []"
    and nodes: "explodeIfNeeded p ms = Inr nodes"
    and prime: "primeFirstTime p nodes = Inr p1"
  shows "previousFileIndex p' = previousFileIndex p1 \<and> \<not> firstTimePrinting p'"
  using run ne
proof (cases rule: PrintResults_nonempty)
  case (explodeFails err)
  with nodes show ?thesis by simp
next
  case (frontIsNil nodes' err)
  with nodes prime show ?thesis by simp
next
  case (loopFails nodes' p1' err ev1)
  with nodes prime have "printLoop p1 nodes = (Some err, p', ev1)" by simp
  from printLoop_fields [OF this] primeFirstTime_fields [OF prime] show ?thesis by simp
next
  case (loopDone nodes' p1' p2 ev1 ev2)
  with nodes prime have "printLoop p1 nodes = (None, p2, ev1)" by simp
  from printLoop_fields [OF this] primeFirstTime_fields [OF prime]
    pipeAppendix_events [OF loopDone(4)]
  show ?thesis by simp
qed

text \<open>
  The walk of a call on a non-empty sequence: the nodes it requests sinks for and
  encodes are taken, from the front, from the sequence the explode step produced, and
  the flag is set exactly when it was set before or one of the encoded nodes counts.
\<close>

lemma PrintResults_walk:
  assumes run: "PrintResults p ms = (res, p', evs)" and ne: "ms \<noteq> []"
  shows "(printedMatches p' \<longleftrightarrow>
            printedMatches p \<or> (\<exists>m\<in>set (encodedNodes evs). countsAsPrinted m)) \<and>
         filter isExplode evs = (if \<not> CanHandleAliases (encoder p) then [Explode ms] else []) \<and>
         (explodeIfNeeded p ms = Inr nodes \<longrightarrow>
            prefix (requestedNodes evs) nodes \<and> prefix (encodedNodes evs) nodes \<and>
            (res = None \<longrightarrow> requestedNodes evs = nodes \<and> encodedNodes evs = nodes))"
proof -
  let ?ev0 = "if \<not> CanHandleAliases (encoder p) then [Explode ms] else []"
  have ev0: "requestedNodes ?ev0 = []" "encodedNodes ?ev0 = []" "filter isExplode ?ev0 = ?ev0"
    by (simp_all add: requestedNodes_def encodedNodes_def)
  from run ne show ?thesis
  proof (cases rule: PrintResults_nonempty)
    case (explodeFails err)
    with ev0 show ?thesis by simp
  next
    case (frontIsNil nodes' err)
    with ev0 show ?thesis by simp
  next
    case (loopFails nodes' p1 err ev1)
    note loop = printLoop_events [OF loopFails(3)]
    note prime = primeFirstTime_fields [OF loopFails(2)]
    have "requestedNodes evs = requestedNodes ev1" "encodedNodes evs = encodedNodes ev1"
      "filter isExplode evs = ?ev0"
      using loopFails(5) ev0 loop by simp_all
    with loop prime loopFails(1,4) show ?thesis by auto
  next
    case (loopDone nodes' p1 p2 ev1 ev2)
    note loop = printLoop_events [OF loopDone(3)]
    note prime = primeFirstTime_fields [OF loopDone(2)]
    note app = pipeAppendix_events [OF loopDone(4)]
    have "requestedNodes evs = requestedNodes ev1" "encodedNodes evs = encodedNodes ev1"
      "filter isExplode evs = ?ev0"
      using loopDone(5) ev0 loop app by simp_all
    with loop prime app loopDone(1) show ?thesis by auto
  qed
qed

lemma printLoop_append:
  "printLoop p (xs @ ys) =
     (case printLoop p xs of
        (Some err, p1, ev) \<Rightarrow> (Some err, p1, ev)
      | (None, p1, ev) \<Rightarrow>
          (case printLoop p1 ys of (res, p2, ev') \<Rightarrow> (res, p2, ev @ ev')))"
proof (induction xs arbitrary: p)
  case Nil
  show ?case by (simp split: prod.splits)
next
  case (Cons x xs)
  show ?case
    by (simp add: Cons.IH split: prod.splits option.splits)
qed

text \<open>The definitions a concrete run unfolds.\<close>

lemmas run_defs = PrintResults_def explodeIfNeeded_def primeFirstTime_def printOne_def
  printNode_def needsSeparator_def pipeAppendix_def nulSepBlock_def removeLastEOL_def
  NewPrinter_def SetNulSepOutput_def SetAppendix_def PrintedAnything_def
  lineEncoder_def singleSink_def stdoutWriter_def identityNavigator_def failingNavigator_def
  scalarNode_def commentsStartWithSepExp_MatchString_def yqDocSeparator_def Let_def
  NUL_def CR_def LF_def

section \<open>Record framing in NUL-separated mode\<close>

lemma removeLastEOL_CRLF: "removeLastEOL (xs @ [CR, LF]) = xs"
  by (simp add: removeLastEOL_def nth_append)

lemma removeLastEOL_CR: "removeLastEOL (xs @ [CR]) = xs"
  by (auto simp: removeLastEOL_def nth_append CR_def LF_def)

lemma removeLastEOL_LF:
  assumes "xs = [] \<or> last xs \<noteq> CR"
  shows "removeLastEOL (xs @ [LF]) = xs"
proof (cases "xs = []")
  case True
  then show ?thesis by (simp add: removeLastEOL_def)
next
  case False
  with assms have "xs ! (length xs - 1) \<noteq> CR" by (simp add: last_conv_nth)
  moreover from False have "length xs \<ge> 1" by (cases xs) auto
  ultimately show ?thesis by (simp add: removeLastEOL_def nth_append)
qed

lemma removeLastEOL_none:
  assumes "xs = [] \<or> (last xs \<noteq> CR \<and> last xs \<noteq> LF)"
  shows "removeLastEOL xs = xs"
proof (cases "xs = []")
  case True
  then show ?thesis by (simp add: removeLastEOL_def)
next
  case False
  with assms have "xs ! (length xs - 1) \<noteq> CR" "xs ! (length xs - 1) \<noteq> LF"
    by (simp_all add: last_conv_nth)
  then show ?thesis by (simp add: removeLastEOL_def)
qed

text \<open>
  C5. \<^verbatim>\<open>removeLastEOL\<close> strips one trailing line terminator: a trailing CR LF pair, or
  else a single trailing CR or LF (an LF not preceded by CR leaves what is before it,
  also when that ends in LF itself), and a buffer that ends in neither is unchanged. In
  NUL-separated mode an iteration that succeeds makes exactly two \<^verbatim>\<open>Write\<close> calls on
  the sink: the buffered leading content and encoded value after \<^verbatim>\<open>removeLastEOL\<close>,
  then the single byte 0x00.
\<close>

theorem C5_record_framing:
  "removeLastEOL (xs @ [CR, LF]) = xs \<and>
   removeLastEOL (xs @ [CR]) = xs \<and>
   (xs = [] \<or> last xs \<noteq> CR \<longrightarrow> removeLastEOL (xs @ [LF]) = xs) \<and>
   (xs = [] \<or> (last xs \<noteq> CR \<and> last xs \<noteq> LF) \<longrightarrow> removeLastEOL xs = xs) \<and>
   (nulSepOutput p \<and> printOne p n = (None, p', ev) \<and>
    GetWriter (printerWriter p) (Some n) = Inr w \<and>
    PrintLeadingContent (encoder p) TempBuffer (LeadingContent n) = (leadOut, leadErr) \<and>
    Encode (encoder p) TempBuffer n = (nodeOut, nodeErr) \<longrightarrow>
      filter isWrite ev =
        [WriteCall (ident w) (removeLastEOL (leadOut @ nodeOut)), WriteCall (ident w) [NUL]])"
proof (intro conjI impI)
  show "removeLastEOL (xs @ [CR, LF]) = xs" by (rule removeLastEOL_CRLF)
  show "removeLastEOL (xs @ [CR]) = xs" by (rule removeLastEOL_CR)
  show "removeLastEOL (xs @ [LF]) = xs" if "xs = [] \<or> last xs \<noteq> CR"
    using that by (rule removeLastEOL_LF)
  show "removeLastEOL xs = xs" if "xs = [] \<or> (last xs \<noteq> CR \<and> last xs \<noteq> LF)"
    using that by (rule removeLastEOL_none)
  show "filter isWrite ev =
      [WriteCall (ident w) (removeLastEOL (leadOut @ nodeOut)), WriteCall (ident w) [NUL]]"
    if h: "nulSepOutput p \<and> printOne p n = (None, p', ev) \<and>
      GetWriter (printerWriter p) (Some n) = Inr w \<and>
      PrintLeadingContent (encoder p) TempBuffer (LeadingContent n) = (leadOut, leadErr) \<and>
      Encode (encoder p) TempBuffer n = (nodeOut, nodeErr)"
  proof -
    from h have one: "printOne p n = (None, p', ev)" by simp
    from printOne_success [OF one] h show ?thesis by auto
  qed
qed

theorem C5_record_framing_witness:
  "removeLastEOL (''value'' @ [CR, LF]) = ''value'' \<and>
   removeLastEOL (''value'' @ [LF]) = ''value'' \<and>
   removeLastEOL (''value'' @ [LF, LF]) = ''value'' @ [LF] \<and>
   removeLastEOL ''value'' = ''value'' \<and>
   filter isWrite
     (snd (snd (printOne
        (SetNulSepOutput (NewPrinter (lineEncoder True) singleSink identityNavigator) True)
        (scalarNode ''!!str'' (''value'' @ [CR]) 0 0)))) =
     [WriteCall 0 ''value'', WriteCall 0 [NUL]]"
proof -
  let ?p = "SetNulSepOutput (NewPrinter (lineEncoder True) singleSink identityNavigator) True"
  let ?n = "scalarNode ''!!str'' (''value'' @ [CR]) 0 0"
  have run: "printOne ?p ?n =
      (None, ?p\<lparr>printedMatches := True\<rparr>,
       [GetWriterCall (Some ?n), LeadingContentOut TempBuffer [],
        EncodeOut TempBuffer ?n (''value'' @ [CR, LF]),
        WriteCall 0 ''value'', WriteCall 0 [NUL], FlushCall 0])"
    by (simp add: printOne_def printNode_def nulSepBlock_def needsSeparator_def
        SetNulSepOutput_def NewPrinter_def lineEncoder_def singleSink_def stdoutWriter_def
        scalarNode_def removeLastEOL_def commentsStartWithSepExp_MatchString_def
        yqDocSeparator_def CR_def LF_def NUL_def Let_def)
  note c5 = C5_record_framing [of "''value''"]
  have a: "removeLastEOL (''value'' @ [CR, LF]) = ''value''"
    using c5 [THEN conjunct1] by simp
  have b: "removeLastEOL (''value'' @ [LF]) = ''value''"
    using c5 [THEN conjunct2, THEN conjunct2, THEN conjunct1] by (simp add: CR_def)
  have c: "removeLastEOL (''value'' @ [LF, LF]) = ''value'' @ [LF]"
    using C5_record_framing [of "''value'' @ [LF]", THEN conjunct2, THEN conjunct2,
        THEN conjunct1]
    by (simp add: CR_def LF_def)
  have d: "removeLastEOL ''value'' = ''value''"
    using c5 [THEN conjunct2, THEN conjunct2, THEN conjunct2, THEN conjunct1]
    by (simp add: CR_def LF_def)
  have e: "filter isWrite (snd (snd (printOne ?p ?n))) =
      [WriteCall 0 ''value'', WriteCall 0 [NUL]]"
    using C5_record_framing [of "[]" ?p ?n "?p\<lparr>printedMatches := True\<rparr>"
        "snd (snd (printOne ?p ?n))" stdoutWriter "[]" None "''value'' @ [CR, LF]" None,
        THEN conjunct2, THEN conjunct2, THEN conjunct2, THEN conjunct2] run
    by (simp add: SetNulSepOutput_def NewPrinter_def lineEncoder_def singleSink_def
        stdoutWriter_def scalarNode_def removeLastEOL_def CR_def LF_def)
  from a b c d e show ?thesis by simp
qed

section \<open>Boundary bookkeeping\<close>

text \<open>
  C8. An iteration never changes the last-seen file index, whatever its outcome, and
  an iteration that completes leaves the last-seen document index at its node's
  document index. Over a whole call: a printer that has been primed keeps its file
  index; a printer that has not been primed takes the file index of the first node of
  the sequence it is about to walk and is primed from then on; and after a call that
  succeeds the document index is that of the last node walked.
\<close>

theorem C8_index_bookkeeping:
  "(printOne q n = (r, q', ev) \<longrightarrow>
      previousFileIndex q' = previousFileIndex q \<and>
      (r = None \<longrightarrow> previousDocIndex q' = Document n)) \<and>
   (PrintResults p ms = (res, p', evs) \<longrightarrow>
      (\<not> firstTimePrinting p \<longrightarrow>
         previousFileIndex p' = previousFileIndex p \<and> \<not> firstTimePrinting p') \<and>
      (firstTimePrinting p \<and> ms \<noteq> [] \<and> explodeIfNeeded p ms = Inr (first # rest) \<longrightarrow>
         previousFileIndex p' = FileIndex first \<and> \<not> firstTimePrinting p') \<and>
      (res = None \<and> ms \<noteq> [] \<and> explodeIfNeeded p ms = Inr nodes \<and> nodes \<noteq> [] \<longrightarrow>
         previousDocIndex p' = Document (last nodes)))"
proof (intro conjI impI)
  assume one: "printOne q n = (r, q', ev)"
  show "previousFileIndex q' = previousFileIndex q"
    using printOne_fields(7) [OF one] .
  show "previousDocIndex q' = Document n" if "r = None"
    using printOne_success [of q n q' ev] one that by auto
next
  assume run: "PrintResults p ms = (res, p', evs)" and primed: "\<not> firstTimePrinting p"
  have "previousFileIndex p' = previousFileIndex p \<and> \<not> firstTimePrinting p'"
  proof (cases "ms = []")
    case True
    with run primed show ?thesis by (simp add: PrintResults_empty)
  next
    case False
    show ?thesis
    proof (cases "explodeIfNeeded p ms")
      case (Inl err)
      with run False primed show ?thesis
        by (cases rule: PrintResults_nonempty) auto
    next
      case (Inr nodes)
      from primed have "primeFirstTime p nodes = Inr p" by (simp add: primeFirstTime_def)
      from PrintResults_file_index [OF run False Inr this] show ?thesis .
    qed
  qed
  then show "previousFileIndex p' = previousFileIndex p" "\<not> firstTimePrinting p'"
    by simp_all
next
  assume run: "PrintResults p ms = (res, p', evs)"
    and h: "firstTimePrinting p \<and> ms \<noteq> [] \<and> explodeIfNeeded p ms = Inr (first # rest)"
  from h have prime: "primeFirstTime p (first # rest) =
      Inr (p\<lparr>previousDocIndex := Document first, previousFileIndex := FileIndex first,
              firstTimePrinting := False\<rparr>)"
    by (simp add: primeFirstTime_def)
  from h have "ms \<noteq> []" "explodeIfNeeded p ms = Inr (first # rest)" by simp_all
  from PrintResults_file_index [OF run this prime]
  show "previousFileIndex p' = FileIndex first" "\<not> firstTimePrinting p'" by simp_all
next
  assume run: "PrintResults p ms = (res, p', evs)"
    and h: "res = None \<and> ms \<noteq> [] \<and> explodeIfNeeded p ms = Inr nodes \<and> nodes \<noteq> []"
  from h have ne: "ms \<noteq> []" by simp
  from run ne show "previousDocIndex p' = Document (last nodes)"
  proof (cases rule: PrintResults_nonempty)
    case (loopDone nodes' p1 p2 ev1 ev2)
    with h have "printLoop p1 nodes = (None, p2, ev1)" by simp
    from printLoop_last_document [OF this] h pipeAppendix_events [OF loopDone(4)]
    show ?thesis by simp
  qed (use h in simp_all)
qed

theorem C8_index_bookkeeping_witness:
  "firstTimePrinting (NewPrinter (lineEncoder True) singleSink identityNavigator) \<and>
   previousFileIndex (fst (snd (PrintResults
      (NewPrinter (lineEncoder True) singleSink identityNavigator)
      [scalarNode ''!!str'' ''a'' 0 7, scalarNode ''!!str'' ''b'' 1 8]))) = 7 \<and>
   previousDocIndex (fst (snd (PrintResults
      (NewPrinter (lineEncoder True) singleSink identityNavigator)
      [scalarNode ''!!str'' ''a'' 0 7, scalarNode ''!!str'' ''b'' 1 8]))) = 1 \<and>
   \<not> firstTimePrinting (fst (snd (PrintResults
      (NewPrinter (lineEncoder True) singleSink identityNavigator)
      [scalarNode ''!!str'' ''a'' 0 7, scalarNode ''!!str'' ''b'' 1 8]))) \<and>
   previousFileIndex (fst (snd (PrintResults
      ((NewPrinter (lineEncoder True) singleSink identityNavigator)
         \<lparr>firstTimePrinting := False, previousFileIndex := 7\<rparr>)
      [scalarNode ''!!str'' ''c'' 2 9]))) = 7 \<and>
   previousFileIndex (fst (snd (printOne
      ((NewPrinter (lineEncoder True) singleSink identityNavigator)
         \<lparr>firstTimePrinting := False, previousFileIndex := 7\<rparr>)
      (scalarNode ''!!str'' ''c'' 2 9)))) = 7 \<and>
   previousDocIndex (fst (snd (printOne
      ((NewPrinter (lineEncoder True) singleSink identityNavigator)
         \<lparr>firstTimePrinting := False, previousFileIndex := 7\<rparr>)
      (scalarNode ''!!str'' ''c'' 2 9)))) = 2"
proof -
  let ?p = "NewPrinter (lineEncoder True) singleSink identityNavigator"
  let ?a = "scalarNode ''!!str'' ''a'' 0 7"
  let ?b = "scalarNode ''!!str'' ''b'' 1 8"
  let ?c = "scalarNode ''!!str'' ''c'' 2 9"
  let ?q = "?p\<lparr>firstTimePrinting := False, previousFileIndex := 7\<rparr>"
  have fresh: "firstTimePrinting ?p" by (simp add: NewPrinter_def)
  have ok: "fst (PrintResults ?p [?a, ?b]) = None" by (simp add: run_defs)
  have ex: "explodeIfNeeded ?p [?a, ?b] = Inr [?a, ?b]" by (simp add: run_defs)
  have ok1: "fst (printOne ?q ?c) = None" by (simp add: run_defs)
  have primed: "\<not> firstTimePrinting ?q" by simp
  have h1: "printOne ?q ?c =
      (fst (printOne ?q ?c), fst (snd (printOne ?q ?c)), snd (snd (printOne ?q ?c)))"
    by simp
  have h2: "PrintResults ?p [?a, ?b] =
      (fst (PrintResults ?p [?a, ?b]), fst (snd (PrintResults ?p [?a, ?b])),
       snd (snd (PrintResults ?p [?a, ?b])))"
    by simp
  have h3: "PrintResults ?q [?c] =
      (fst (PrintResults ?q [?c]), fst (snd (PrintResults ?q [?c])),
       snd (snd (PrintResults ?q [?c])))"
    by simp
  note first_call = C8_index_bookkeeping [of ?q ?c "fst (printOne ?q ?c)"
      "fst (snd (printOne ?q ?c))" "snd (snd (printOne ?q ?c))"
      ?p "[?a, ?b]" "fst (PrintResults ?p [?a, ?b])" "fst (snd (PrintResults ?p [?a, ?b]))"
      "snd (snd (PrintResults ?p [?a, ?b]))" ?a "[?b]" "[?a, ?b]"]
  note second_call = C8_index_bookkeeping [of ?q ?c "fst (printOne ?q ?c)"
      "fst (snd (printOne ?q ?c))" "snd (snd (printOne ?q ?c))"
      ?q "[?c]" "fst (PrintResults ?q [?c])" "fst (snd (PrintResults ?q [?c]))"
      "snd (snd (PrintResults ?q [?c]))" ?c "[]" "[?c]"]
  from first_call [THEN conjunct2, THEN mp, OF h2] fresh ok ex
  have a: "previousFileIndex (fst (snd (PrintResults ?p [?a, ?b]))) = FileIndex ?a \<and>
      \<not> firstTimePrinting (fst (snd (PrintResults ?p [?a, ?b]))) \<and>
      previousDocIndex (fst (snd (PrintResults ?p [?a, ?b]))) = Document ?b"
    by simp
  from second_call [THEN conjunct2, THEN mp, OF h3] primed
  have b: "previousFileIndex (fst (snd (PrintResults ?q [?c]))) = previousFileIndex ?q"
    by simp
  from first_call [THEN conjunct1, THEN mp, OF h1] ok1
  have c: "previousFileIndex (fst (snd (printOne ?q ?c))) = previousFileIndex ?q \<and>
      previousDocIndex (fst (snd (printOne ?q ?c))) = Document ?c"
    by simp
  from fresh a b c show ?thesis by (simp add: scalarNode_def)
qed

section \<open>The printed flag and the explode rewrite\<close>

text \<open>
  C6. After any call, \<^verbatim>\<open>PrintedAnything\<close> holds exactly when it held before or
  \<^verbatim>\<open>printNode\<close> was called on a node that is neither tagged \<^verbatim>\<open>!!null\<close> nor tagged
  \<^verbatim>\<open>!!bool\<close> with value \<^verbatim>\<open>false\<close> (so it stays true once true, and becomes true as soon
  as such a node is processed, also when the call fails later). The nodes processed
  are taken from the front of the sequence the call walks. Hence the flag is still
  false after a sequence of null and false nodes only, and true after a successful call
  on a sequence with any other node.
\<close>

theorem C6_printed_anything:
  "PrintResults p ms = (res, p', evs) \<longrightarrow>
     (PrintedAnything p' \<longleftrightarrow>
        PrintedAnything p \<or>
        (\<exists>n\<in>set (encodedNodes evs).
           Tag n \<noteq> ''!!null'' \<and> (Tag n \<noteq> ''!!bool'' \<or> Value n \<noteq> ''false''))) \<and>
     (PrintedAnything p \<longrightarrow> PrintedAnything p') \<and>
     (explodeIfNeeded p ms = Inr nodes \<longrightarrow> prefix (encodedNodes evs) nodes) \<and>
     (\<not> PrintedAnything p \<and> explodeIfNeeded p ms = Inr nodes \<and>
      (\<forall>n\<in>set nodes. Tag n = ''!!null'' \<or> (Tag n = ''!!bool'' \<and> Value n = ''false'')) \<longrightarrow>
        \<not> PrintedAnything p') \<and>
     (res = None \<and> ms \<noteq> [] \<and> explodeIfNeeded p ms = Inr nodes \<and>
      (\<exists>n\<in>set nodes. Tag n \<noteq> ''!!null'' \<and> (Tag n \<noteq> ''!!bool'' \<or> Value n \<noteq> ''false'')) \<longrightarrow>
        PrintedAnything p')"
proof
  assume run: "PrintResults p ms = (res, p', evs)"
  let ?counts = "\<lambda>n. Tag n \<noteq> ''!!null'' \<and> (Tag n \<noteq> ''!!bool'' \<or> Value n \<noteq> ''false'')"
  have flag: "PrintedAnything p' \<longleftrightarrow>
      PrintedAnything p \<or> (\<exists>n\<in>set (encodedNodes evs). ?counts n)"
    and pre: "explodeIfNeeded p ms = Inr nodes \<longrightarrow> prefix (encodedNodes evs) nodes"
    and all: "res = None \<and> ms \<noteq> [] \<and> explodeIfNeeded p ms = Inr nodes \<longrightarrow>
      encodedNodes evs = nodes"
  proof -
    show "PrintedAnything p' \<longleftrightarrow>
      PrintedAnything p \<or> (\<exists>n\<in>set (encodedNodes evs). ?counts n)"
    proof (cases "ms = []")
      case True
      with run show ?thesis by (simp add: PrintResults_empty encodedNodes_def)
    next
      case False
      from PrintResults_walk [OF run False, of nodes] show ?thesis
        by (simp add: PrintedAnything_def countsAsPrinted_def)
    qed
    show "explodeIfNeeded p ms = Inr nodes \<longrightarrow> prefix (encodedNodes evs) nodes"
    proof (cases "ms = []")
      case True
      with run show ?thesis by (simp add: PrintResults_empty encodedNodes_def)
    next
      case False
      from PrintResults_walk [OF run False, of nodes] show ?thesis by simp
    qed
    show "res = None \<and> ms \<noteq> [] \<and> explodeIfNeeded p ms = Inr nodes \<longrightarrow>
      encodedNodes evs = nodes"
    proof
      assume h: "res = None \<and> ms \<noteq> [] \<and> explodeIfNeeded p ms = Inr nodes"
      then have "ms \<noteq> []" by simp
      from PrintResults_walk [OF run this, of nodes] h show "encodedNodes evs = nodes"
        by simp
    qed
  qed
  have none: "\<not> PrintedAnything p'"
    if h: "\<not> PrintedAnything p \<and> explodeIfNeeded p ms = Inr nodes \<and>
      (\<forall>n\<in>set nodes. Tag n = ''!!null'' \<or> (Tag n = ''!!bool'' \<and> Value n = ''false''))"
  proof -
    from pre h have "set (encodedNodes evs) \<subseteq> set nodes" by (auto dest: set_mono_prefix)
    with h have "\<not> (\<exists>n\<in>set (encodedNodes evs). ?counts n)" by blast
    with flag h show ?thesis by simp
  qed
  have some: "PrintedAnything p'"
    if h: "res = None \<and> ms \<noteq> [] \<and> explodeIfNeeded p ms = Inr nodes \<and>
      (\<exists>n\<in>set nodes. ?counts n)"
  proof -
    from all h have "encodedNodes evs = nodes" by simp
    with flag h show ?thesis by simp
  qed
  from flag pre none some
  show "(PrintedAnything p' \<longleftrightarrow>
        PrintedAnything p \<or> (\<exists>n\<in>set (encodedNodes evs). ?counts n)) \<and>
     (PrintedAnything p \<longrightarrow> PrintedAnything p') \<and>
     (explodeIfNeeded p ms = Inr nodes \<longrightarrow> prefix (encodedNodes evs) nodes) \<and>
     (\<not> PrintedAnything p \<and> explodeIfNeeded p ms = Inr nodes \<and>
      (\<forall>n\<in>set nodes. Tag n = ''!!null'' \<or> (Tag n = ''!!bool'' \<and> Value n = ''false'')) \<longrightarrow>
        \<not> PrintedAnything p') \<and>
     (res = None \<and> ms \<noteq> [] \<and> explodeIfNeeded p ms = Inr nodes \<and>
      (\<exists>n\<in>set nodes. ?counts n) \<longrightarrow> PrintedAnything p')"
    by blast
qed

theorem C6_printed_anything_witness:
  "\<not> PrintedAnything (NewPrinter (lineEncoder True) singleSink identityNavigator) \<and>
   \<not> PrintedAnything (fst (snd (PrintResults
        (NewPrinter (lineEncoder True) singleSink identityNavigator)
        [scalarNode ''!!null'' ''null'' 0 0, scalarNode ''!!bool'' ''false'' 0 0]))) \<and>
   PrintedAnything (fst (snd (PrintResults
        (NewPrinter (lineEncoder True) singleSink identityNavigator)
        [scalarNode ''!!null'' ''null'' 0 0, scalarNode ''!!bool'' ''true'' 0 0]))) \<and>
   PrintedAnything (fst (snd (PrintResults
        ((NewPrinter (lineEncoder True) singleSink identityNavigator)
           \<lparr>printedMatches := True\<rparr>)
        [scalarNode ''!!null'' ''null'' 0 0])))"
proof -
  let ?p = "NewPrinter (lineEncoder True) singleSink identityNavigator"
  let ?null = "scalarNode ''!!null'' ''null'' 0 0"
  let ?false = "scalarNode ''!!bool'' ''false'' 0 0"
  let ?true = "scalarNode ''!!bool'' ''true'' 0 0"
  let ?q = "?p\<lparr>printedMatches := True\<rparr>"
  have fresh: "\<not> PrintedAnything ?p" by (simp add: NewPrinter_def PrintedAnything_def)
  have h1: "PrintResults ?p [?null, ?false] =
      (fst (PrintResults ?p [?null, ?false]), fst (snd (PrintResults ?p [?null, ?false])),
       snd (snd (PrintResults ?p [?null, ?false])))"
    by simp
  have h2: "PrintResults ?p [?null, ?true] =
      (fst (PrintResults ?p [?null, ?true]), fst (snd (PrintResults ?p [?null, ?true])),
       snd (snd (PrintResults ?p [?null, ?true])))"
    by simp
  have h3: "PrintResults ?q [?null] =
      (fst (PrintResults ?q [?null]), fst (snd (PrintResults ?q [?null])),
       snd (snd (PrintResults ?q [?null])))"
    by simp
  have hA: "\<not> PrintedAnything ?p \<and>
      explodeIfNeeded ?p [?null, ?false] = Inr [?null, ?false] \<and>
      (\<forall>n\<in>set [?null, ?false].
         Tag n = ''!!null'' \<or> (Tag n = ''!!bool'' \<and> Value n = ''false''))"
    by (simp add: run_defs)
  have hB: "fst (PrintResults ?p [?null, ?true]) = None \<and> [?null, ?true] \<noteq> [] \<and>
      explodeIfNeeded ?p [?null, ?true] = Inr [?null, ?true] \<and>
      (\<exists>n\<in>set [?null, ?true].
         Tag n \<noteq> ''!!null'' \<and> (Tag n \<noteq> ''!!bool'' \<or> Value n \<noteq> ''false''))"
    by (simp add: run_defs)
  have hC: "PrintedAnything ?q" by (simp add: PrintedAnything_def)
  note c6a = C6_printed_anything [of ?p "[?null, ?false]" _ _ _ "[?null, ?false]",
      THEN mp, OF h1]
  note c6b = C6_printed_anything [of ?p "[?null, ?true]" _ _ _ "[?null, ?true]",
      THEN mp, OF h2]
  note c6c = C6_printed_anything [of ?q "[?null]" _ _ _ "[?null]", THEN mp, OF h3]
  have a: "\<not> PrintedAnything (fst (snd (PrintResults ?p [?null, ?false])))"
    using c6a [THEN conjunct2, THEN conjunct2, THEN conjunct2, THEN conjunct1, THEN mp, OF hA] .
  have b: "PrintedAnything (fst (snd (PrintResults ?p [?null, ?true])))"
    using c6b [THEN conjunct2, THEN conjunct2, THEN conjunct2, THEN conjunct2, THEN mp, OF hB] .
  have c: "PrintedAnything (fst (snd (PrintResults ?q [?null])))"
    using c6c [THEN conjunct2, THEN conjunct1, THEN mp, OF hC] .
  from fresh a b c show ?thesis by simp
qed

text \<open>
  C7 (as amended). For a non-empty sequence and an encoder that cannot handle aliases,
  the explode operation is the first thing the call does and is run once: every sink
  request and every output follows it. The nodes the loop requests sinks for and
  encodes are taken, from the front, from the exploded sequence, and are all of it when
  the call succeeds. When the explode operation fails, its error is returned, the
  printer is unchanged, and the call has done nothing else.
\<close>

theorem C7_explode_first:
  "ms \<noteq> [] \<and> \<not> CanHandleAliases (encoder p) \<and> PrintResults p ms = (res, p', evs) \<longrightarrow>
     (\<exists>rest. evs = Explode ms # rest \<and> filter isExplode rest = []) \<and>
     (GetMatchingNodes (treeNavigator p) ms = Inr nodes \<longrightarrow>
        prefix (requestedNodes evs) nodes \<and> prefix (encodedNodes evs) nodes \<and>
        (res = None \<longrightarrow> requestedNodes evs = nodes \<and> encodedNodes evs = nodes)) \<and>
     (GetMatchingNodes (treeNavigator p) ms = Inl err \<longrightarrow>
        res = Some err \<and> p' = p \<and> evs = [Explode ms])"
proof
  assume h: "ms \<noteq> [] \<and> \<not> CanHandleAliases (encoder p) \<and> PrintResults p ms = (res, p', evs)"
  then have ne: "ms \<noteq> []" and na: "\<not> CanHandleAliases (encoder p)"
    and run: "PrintResults p ms = (res, p', evs)" by simp_all
  from na have ex: "explodeIfNeeded p ms = GetMatchingNodes (treeNavigator p) ms"
    by (simp add: explodeIfNeeded_def)
  have first: "\<exists>rest. evs = Explode ms # rest \<and> filter isExplode rest = []"
    using run ne
  proof (cases rule: PrintResults_nonempty)
    case (explodeFails e)
    with na show ?thesis by simp
  next
    case (frontIsNil ns e)
    with na show ?thesis by simp
  next
    case (loopFails ns p1 e ev1)
    with na printLoop_events [OF loopFails(3)] show ?thesis by simp
  next
    case (loopDone ns p1 p2 ev1 ev2)
    with na printLoop_events [OF loopDone(3)] pipeAppendix_events [OF loopDone(4)]
    show ?thesis by simp
  qed
  have walk: "GetMatchingNodes (treeNavigator p) ms = Inr nodes \<longrightarrow>
        prefix (requestedNodes evs) nodes \<and> prefix (encodedNodes evs) nodes \<and>
        (res = None \<longrightarrow> requestedNodes evs = nodes \<and> encodedNodes evs = nodes)"
    using PrintResults_walk [OF run ne, of nodes] ex by simp
  have fail: "GetMatchingNodes (treeNavigator p) ms = Inl err \<longrightarrow>
        res = Some err \<and> p' = p \<and> evs = [Explode ms]"
  proof
    assume "GetMatchingNodes (treeNavigator p) ms = Inl err"
    with ex have "explodeIfNeeded p ms = Inl err" by simp
    with run ne na show "res = Some err \<and> p' = p \<and> evs = [Explode ms]"
      by (cases rule: PrintResults_nonempty) simp_all
  qed
  from first walk fail
  show "(\<exists>rest. evs = Explode ms # rest \<and> filter isExplode rest = []) \<and>
     (GetMatchingNodes (treeNavigator p) ms = Inr nodes \<longrightarrow>
        prefix (requestedNodes evs) nodes \<and> prefix (encodedNodes evs) nodes \<and>
        (res = None \<longrightarrow> requestedNodes evs = nodes \<and> encodedNodes evs = nodes)) \<and>
     (GetMatchingNodes (treeNavigator p) ms = Inl err \<longrightarrow>
        res = Some err \<and> p' = p \<and> evs = [Explode ms])"
    by blast
qed

theorem C7_explode_first_witness:
  "hd (snd (snd (PrintResults (NewPrinter (lineEncoder False) singleSink identityNavigator)
      [scalarNode ''!!str'' ''a'' 0 0, scalarNode ''!!str'' ''b'' 1 0]))) =
     Explode [scalarNode ''!!str'' ''a'' 0 0, scalarNode ''!!str'' ''b'' 1 0] \<and>
   requestedNodes (snd (snd (PrintResults
      (NewPrinter (lineEncoder False) singleSink identityNavigator)
      [scalarNode ''!!str'' ''a'' 0 0, scalarNode ''!!str'' ''b'' 1 0]))) =
     [scalarNode ''!!str'' ''a'' 0 0, scalarNode ''!!str'' ''b'' 1 0] \<and>
   PrintResults (NewPrinter (lineEncoder False) singleSink failingNavigator)
      [scalarNode ''!!str'' ''a'' 0 0] =
     (Some (Error ''explode failed''),
      NewPrinter (lineEncoder False) singleSink failingNavigator,
      [Explode [scalarNode ''!!str'' ''a'' 0 0]])"
proof -
  let ?p = "NewPrinter (lineEncoder False) singleSink identityNavigator"
  let ?f = "NewPrinter (lineEncoder False) singleSink failingNavigator"
  let ?a = "scalarNode ''!!str'' ''a'' 0 0"
  let ?b = "scalarNode ''!!str'' ''b'' 1 0"
  have h1: "[?a, ?b] \<noteq> [] \<and> \<not> CanHandleAliases (encoder ?p) \<and>
      PrintResults ?p [?a, ?b] =
      (fst (PrintResults ?p [?a, ?b]), fst (snd (PrintResults ?p [?a, ?b])),
       snd (snd (PrintResults ?p [?a, ?b])))"
    by (simp add: NewPrinter_def lineEncoder_def)
  have h2: "[?a] \<noteq> [] \<and> \<not> CanHandleAliases (encoder ?f) \<and>
      PrintResults ?f [?a] =
      (fst (PrintResults ?f [?a]), fst (snd (PrintResults ?f [?a])),
       snd (snd (PrintResults ?f [?a])))"
    by (simp add: NewPrinter_def lineEncoder_def)
  have ok: "fst (PrintResults ?p [?a, ?b]) = None" by (simp add: run_defs)
  have nav: "GetMatchingNodes (treeNavigator ?p) [?a, ?b] = Inr [?a, ?b]"
    by (simp add: NewPrinter_def identityNavigator_def)
  have nav2: "GetMatchingNodes (treeNavigator ?f) [?a] = Inl (Error ''explode failed'')"
    by (simp add: NewPrinter_def failingNavigator_def)
  from C7_explode_first [of "[?a, ?b]" ?p _ _ _ "[?a, ?b]", THEN mp, OF h1] ok nav
  have a: "hd (snd (snd (PrintResults ?p [?a, ?b]))) = Explode [?a, ?b] \<and>
      requestedNodes (snd (snd (PrintResults ?p [?a, ?b]))) = [?a, ?b]"
    by auto
  from C7_explode_first [of "[?a]" ?f _ _ _ _ "Error ''explode failed''", THEN mp, OF h2] nav2
  have b: "fst (PrintResults ?f [?a]) = Some (Error ''explode failed'') \<and>
      fst (snd (PrintResults ?f [?a])) = ?f \<and> snd (snd (PrintResults ?f [?a])) = [Explode [?a]]"
    by simp
  then have "PrintResults ?f [?a] = (Some (Error ''explode failed''), ?f, [Explode [?a]])"
    by (metis prod.collapse)
  with a show ?thesis by simp
qed

text \<open>
  C7 as first stated also covers the empty sequence; there the call returns before
  the explode step, and the operation is not run at all.
\<close>

theorem C7_empty_sequence_counterexample:
  "CanHandleAliases (encoder (NewPrinter (lineEncoder False) singleSink identityNavigator)) = False \<and>
   PrintResults (NewPrinter (lineEncoder False) singleSink identityNavigator) [] =
     (None, NewPrinter (lineEncoder False) singleSink identityNavigator, []) \<and>
   length (filter isExplode
     (snd (snd (PrintResults (NewPrinter (lineEncoder False) singleSink identityNavigator) []))))
     \<noteq> 1"
  by (simp add: PrintResults_def NewPrinter_def lineEncoder_def)

section \<open>The appendix\<close>

text \<open>
  C2 as first stated: with an empty sequence and a registered appendix the bytes of
  the appendix reach the sink for "no node". Here the appendix holds eight bytes, the
  call succeeds, and nothing is written.
\<close>

theorem C2_appendix_not_piped_counterexample:
  "\<not> (fst (PrintResults
          (SetAppendix (NewPrinter (lineEncoder True) singleSink identityNavigator)
             (Some (Reader ''appendix'' None))) []) = None \<and>
       writtenTo 0 (snd (snd (PrintResults
          (SetAppendix (NewPrinter (lineEncoder True) singleSink identityNavigator)
             (Some (Reader ''appendix'' None))) []))) = ''appendix'')"
  by (simp add: PrintResults_def writtenTo_def)

text \<open>
  C2 (as amended). A call with an empty sequence returns success and does nothing
  else, whether or not an appendix is registered: no call is made on any collaborator
  and the printer, with its appendix reader, is unchanged. The appendix is piped by
  calls on a non-empty sequence: such a call that succeeds with an appendix registered
  ends with the request for the "no node" sink, the copy of the appendix bytes to it,
  and its flush.
\<close>

theorem C2_empty_sequence_is_noop:
  "PrintResults p [] = (None, p, []) \<and>
   (ms \<noteq> [] \<and> PrintResults p ms = (None, p', evs) \<and>
    appendixReader p = Some (Reader content readErr) \<longrightarrow>
      (\<exists>w ev. GetWriter (printerWriter p) None = Inr w \<and>
         evs = ev @ [GetWriterCall None, CopyCall (ident w) content, FlushCall (ident w)] \<and>
         appendixReader p' = Some (Reader [] readErr)))"
proof (intro conjI impI)
  show "PrintResults p [] = (None, p, [])" by (rule PrintResults_empty)
next
  assume h: "ms \<noteq> [] \<and> PrintResults p ms = (None, p', evs) \<and>
    appendixReader p = Some (Reader content readErr)"
  then have ne: "ms \<noteq> []" and run: "PrintResults p ms = (None, p', evs)"
    and app: "appendixReader p = Some (Reader content readErr)" by simp_all
  from run ne
  show "\<exists>w ev. GetWriter (printerWriter p) None = Inr w \<and>
         evs = ev @ [GetWriterCall None, CopyCall (ident w) content, FlushCall (ident w)] \<and>
         appendixReader p' = Some (Reader [] readErr)"
  proof (cases rule: PrintResults_nonempty)
    case (loopDone nodes p1 p2 ev1 ev2)
    from printLoop_fields [OF loopDone(3)] primeFirstTime_fields [OF loopDone(2)] app
    have f: "appendixReader p2 = Some (Reader content readErr)"
      "printerWriter p2 = printerWriter p" by simp_all
    from loopDone(4) f obtain w where w: "GetWriter (printerWriter p) None = Inr w"
      and ev2: "ev2 = [GetWriterCall None, CopyCall (ident w) content, FlushCall (ident w)]"
      and p': "appendixReader p' = Some (Reader [] readErr)"
      by (auto simp: pipeAppendix_def Let_def split: sum.splits option.splits)
    from loopDone(5) ev2
    have "evs = ((if \<not> CanHandleAliases (encoder p) then [Explode ms] else []) @ ev1) @
        [GetWriterCall None, CopyCall (ident w) content, FlushCall (ident w)]"
      by simp
    with w p' show ?thesis by blast
  qed simp_all
qed

theorem C2_empty_sequence_is_noop_witness:
  "PrintResults
     (SetAppendix (NewPrinter (lineEncoder True) singleSink identityNavigator)
        (Some (Reader ''appendix'' None))) [] =
     (None,
      SetAppendix (NewPrinter (lineEncoder True) singleSink identityNavigator)
        (Some (Reader ''appendix'' None)), []) \<and>
   (\<exists>ev. snd (snd (PrintResults
       (SetAppendix (NewPrinter (lineEncoder True) singleSink identityNavigator)
          (Some (Reader ''appendix'' None)))
       [scalarNode ''!!str'' ''a'' 0 0])) =
     ev @ [GetWriterCall None, CopyCall 0 ''appendix'', FlushCall 0])"
proof -
  let ?p = "SetAppendix (NewPrinter (lineEncoder True) singleSink identityNavigator)
        (Some (Reader ''appendix'' None))"
  let ?a = "scalarNode ''!!str'' ''a'' 0 0"
  have ok: "fst (PrintResults ?p [?a]) = None" by (simp add: run_defs)
  have h: "[?a] \<noteq> [] \<and>
      PrintResults ?p [?a] =
        (None, fst (snd (PrintResults ?p [?a])), snd (snd (PrintResults ?p [?a]))) \<and>
      appendixReader ?p = Some (Reader ''appendix'' None)"
  proof -
    have "PrintResults ?p [?a] =
        (fst (PrintResults ?p [?a]), fst (snd (PrintResults ?p [?a])),
         snd (snd (PrintResults ?p [?a])))" by simp
    with ok show ?thesis by (simp add: SetAppendix_def)
  qed
  note c2 = C2_empty_sequence_is_noop [of ?p "[?a]" _ _ "''appendix''" None]
  from c2 [THEN conjunct2, THEN mp, OF h]
  obtain w ev where w: "GetWriter (printerWriter ?p) None = Inr w"
    and ev: "snd (snd (PrintResults ?p [?a])) =
      ev @ [GetWriterCall None, CopyCall (ident w) ''appendix'', FlushCall (ident w)]"
    by blast
  from w have "ident w = 0"
    by (auto simp: SetAppendix_def NewPrinter_def singleSink_def stdoutWriter_def)
  with ev have "\<exists>ev. snd (snd (PrintResults ?p [?a])) =
      ev @ [GetWriterCall None, CopyCall 0 ''appendix'', FlushCall 0]" by auto
  with c2 [THEN conjunct1] show ?thesis by simp
qed

section \<open>The NUL-separated stream\<close>

text \<open>Of the printer, the expected stream reads the collaborators and the file index.\<close>

lemma nulStream_cong:
  assumes "encoder q = encoder p" "printerWriter q = printerWriter p"
    "previousFileIndex q = previousFileIndex p"
  shows "nulStream q s d ns = nulStream p s d ns"
proof (induction ns arbitrary: d)
  case Nil
  show ?case by simp
next
  case (Cons n ns)
  from assms(3)
  have "needsSeparator (q\<lparr>previousDocIndex := d\<rparr>) n =
      needsSeparator (p\<lparr>previousDocIndex := d\<rparr>) n"
    by (simp add: needsSeparator_def)
  with Cons [of "Document n"] assms(1,2) show ?case
    by (simp split: sum.splits)
qed

lemma needsSeparator_same_doc:
  "needsSeparator (p\<lparr>previousDocIndex := previousDocIndex p\<rparr>) n = needsSeparator p n"
  by (simp add: needsSeparator_def)

lemma printLoop_nul_stream:
  assumes "printLoop p ns = (None, p', ev)" "nulSepOutput p"
  shows "writtenTo s ev = nulStream p s (previousDocIndex p) ns"
  using assms
proof (induction ns arbitrary: p p' ev)
  case Nil
  then show ?case by simp
next
  case (Cons n ns)
  obtain r1 p1 ev1 where one: "printOne p n = (r1, p1, ev1)"
    by (cases "printOne p n") auto
  with Cons.prems have r1: "r1 = None" by (cases r1) auto
  obtain r2 p2 ev2 where rest: "printLoop p1 ns = (r2, p2, ev2)"
    by (cases "printLoop p1 ns") auto
  with one r1 Cons.prems have eq: "r2 = None" "ev = ev1 @ ev2" by simp_all
  from printOne_success [of p n p1 ev1] one r1 Cons.prems(2)
  obtain w sepOut leadOut nodeOut where
    w: "GetWriter (printerWriter p) (Some n) = Inr w"
    and sep: "needsSeparator p n \<longrightarrow>
      PrintDocumentSeparator (encoder p) (ident w) = (sepOut, None)"
    and lead: "PrintLeadingContent (encoder p) TempBuffer (LeadingContent n) = (leadOut, None)"
    and node: "Encode (encoder p) TempBuffer n = (nodeOut, None)"
    and p1: "p1 = p\<lparr>printedMatches := printedMatches p \<or> countsAsPrinted n,
                    previousDocIndex := Document n\<rparr>"
    and ev1: "ev1 = GetWriterCall (Some n) #
        (if needsSeparator p n then [DocumentSeparator (ident w) sepOut] else []) @
        [LeadingContentOut TempBuffer leadOut, EncodeOut TempBuffer n nodeOut,
         WriteCall (ident w) (removeLastEOL (leadOut @ nodeOut)), WriteCall (ident w) [NUL],
         FlushCall (ident w)]"
    by auto
  have step: "writtenTo s ev1 =
      (if ident w = s
       then (if needsSeparator p n then fst (PrintDocumentSeparator (encoder p) s) else []) @
            nulRecord (encoder p) n
       else [])"
    using ev1 sep lead node by (auto simp: nulRecord_def)
  from p1 Cons.prems(2) have nul1: "nulSepOutput p1" by simp
  from p1 have "nulStream p1 s (Document n) ns = nulStream p s (Document n) ns"
    by (intro nulStream_cong) simp_all
  moreover from p1 have "previousDocIndex p1 = Document n" by simp
  ultimately have "writtenTo s ev2 = nulStream p s (Document n) ns"
    using Cons.IH [of p1 p2 ev2] rest eq(1) nul1 by simp
  with step eq(2) w show ?case by (simp add: needsSeparator_same_doc)
qed

lemma pipeAppendix_written:
  assumes "pipeAppendix p = (None, p', ev)"
  shows "writtenTo s ev = appendixBytes p s"
  using assms
  by (auto simp: pipeAppendix_def appendixBytes_def Let_def
      split: option.splits Reader.splits sum.splits)

text \<open>
  C3 as first stated: in NUL-separated mode the bytes a sink receives are the records
  and nothing else. Two nodes of documents 0 and 1: the sink receives the document
  separator between the two records.
\<close>

theorem C3_separator_between_records_counterexample:
  "fst (PrintResults
      (SetNulSepOutput (NewPrinter (lineEncoder True) singleSink identityNavigator) True)
      [scalarNode ''!!str'' ''a'' 0 0, scalarNode ''!!str'' ''b'' 1 0]) = None \<and>
   recordsOnly (lineEncoder True)
      [scalarNode ''!!str'' ''a'' 0 0, scalarNode ''!!str'' ''b'' 1 0] =
     ''a'' @ [NUL] @ ''b'' @ [NUL] \<and>
   writtenTo 0 (snd (snd (PrintResults
      (SetNulSepOutput (NewPrinter (lineEncoder True) singleSink identityNavigator) True)
      [scalarNode ''!!str'' ''a'' 0 0, scalarNode ''!!str'' ''b'' 1 0]))) \<noteq>
     recordsOnly (lineEncoder True)
      [scalarNode ''!!str'' ''a'' 0 0, scalarNode ''!!str'' ''b'' 1 0]"
  by (simp add: run_defs writtenTo_def recordsOnly_def nulRecord_def)

text \<open>
  C3 (as amended). A call on the empty sequence writes nothing. In NUL-separated
  mode, after a call on a non-empty sequence that succeeds, the bytes a sink has
  received are, for each node routed to it and in order: the encoder's document
  separator if the node starts a new boundary, then the node's record (leading content
  and encoded value with at most one trailing line terminator removed, followed by one
  byte 0x00); and after the last record the bytes of the appendix, if one is registered
  and the sink is the one for "no node".
\<close>

theorem C3_nul_stream:
  "writtenTo s (snd (snd (PrintResults p []))) = [] \<and>
   (nulSepOutput p \<and> ms \<noteq> [] \<and> PrintResults p ms = (None, p', evs) \<and>
    explodeIfNeeded p ms = Inr nodes \<and> primeFirstTime p nodes = Inr p1 \<longrightarrow>
      writtenTo s evs = nulStream p1 s (previousDocIndex p1) nodes @ appendixBytes p s)"
proof (intro conjI impI)
  show "writtenTo s (snd (snd (PrintResults p []))) = []"
    by (simp add: PrintResults_empty)
next
  assume h: "nulSepOutput p \<and> ms \<noteq> [] \<and> PrintResults p ms = (None, p', evs) \<and>
    explodeIfNeeded p ms = Inr nodes \<and> primeFirstTime p nodes = Inr p1"
  then have ne: "ms \<noteq> []" and run: "PrintResults p ms = (None, p', evs)" by simp_all
  from run ne
  show "writtenTo s evs = nulStream p1 s (previousDocIndex p1) nodes @ appendixBytes p s"
  proof (cases rule: PrintResults_nonempty)
    case (loopDone nodes' q1 p2 ev1 ev2)
    with h have loop: "printLoop p1 nodes = (None, p2, ev1)"
      and prime: "primeFirstTime p nodes = Inr p1" by simp_all
    note f1 = primeFirstTime_fields [OF prime]
    note f2 = printLoop_fields [OF loop]
    from f1 h have "nulSepOutput p1" by simp
    from printLoop_nul_stream [OF loop this]
    have a: "writtenTo s ev1 = nulStream p1 s (previousDocIndex p1) nodes" .
    from f1 f2 have "appendixBytes p2 s = appendixBytes p s"
      by (simp add: appendixBytes_def split: option.splits Reader.splits)
    with pipeAppendix_written [OF loopDone(4)]
    have b: "writtenTo s ev2 = appendixBytes p s" by simp
    from loopDone(5) a b show ?thesis by simp
  qed simp_all
qed

theorem C3_nul_stream_witness:
  "fst (PrintResults
      (SetNulSepOutput (NewPrinter (lineEncoder True) singleSink identityNavigator) True)
      [scalarNode ''!!str'' ''a'' 0 0, scalarNode ''!!str'' ''b'' 1 0]) = None \<and>
   writtenTo 0 (snd (snd (PrintResults
      (SetNulSepOutput (NewPrinter (lineEncoder True) singleSink identityNavigator) True)
      [scalarNode ''!!str'' ''a'' 0 0, scalarNode ''!!str'' ''b'' 1 0]))) =
     ''a'' @ [NUL] @ ''---'' @ [LF] @ ''b'' @ [NUL]"
proof -
  let ?p = "SetNulSepOutput (NewPrinter (lineEncoder True) singleSink identityNavigator) True"
  let ?a = "scalarNode ''!!str'' ''a'' 0 0"
  let ?b = "scalarNode ''!!str'' ''b'' 1 0"
  let ?p1 = "?p\<lparr>previousDocIndex := 0, previousFileIndex := 0, firstTimePrinting := False\<rparr>"
  have ok: "fst (PrintResults ?p [?a, ?b]) = None" by (simp add: run_defs)
  have h: "nulSepOutput ?p \<and> [?a, ?b] \<noteq> [] \<and>
      PrintResults ?p [?a, ?b] =
        (None, fst (snd (PrintResults ?p [?a, ?b])), snd (snd (PrintResults ?p [?a, ?b]))) \<and>
      explodeIfNeeded ?p [?a, ?b] = Inr [?a, ?b] \<and> primeFirstTime ?p [?a, ?b] = Inr ?p1"
  proof -
    have "PrintResults ?p [?a, ?b] =
        (fst (PrintResults ?p [?a, ?b]), fst (snd (PrintResults ?p [?a, ?b])),
         snd (snd (PrintResults ?p [?a, ?b])))" by simp
    with ok show ?thesis
      by (simp add: SetNulSepOutput_def NewPrinter_def explodeIfNeeded_def
          primeFirstTime_def lineEncoder_def scalarNode_def)
  qed
  have stream: "nulStream ?p1 0 (previousDocIndex ?p1) [?a, ?b] @ appendixBytes ?p 0 =
      ''a'' @ [NUL] @ ''---'' @ [LF] @ ''b'' @ [NUL]"
    by (simp add: run_defs nulRecord_def appendixBytes_def)
  from C3_nul_stream [of 0 ?p "[?a, ?b]" _ _ "[?a, ?b]" ?p1, THEN conjunct2, THEN mp, OF h]
    stream
  have "writtenTo 0 (snd (snd (PrintResults ?p [?a, ?b]))) =
      ''a'' @ [NUL] @ ''---'' @ [LF] @ ''b'' @ [NUL]"
    by simp
  with ok show ?thesis by simp
qed

section \<open>A NUL byte in a record\<close>

text \<open>The iteration on a node whose buffered record holds a NUL byte.\<close>

lemma printOne_nul_in_record:
  assumes "nulSepOutput p"
    and "GetWriter (printerWriter p) (Some n) = Inr w"
    and "PrintDocumentSeparator (encoder p) (ident w) = (sepOut, sepErr)"
    and "needsSeparator p n \<longrightarrow> sepErr = None"
    and "PrintLeadingContent (encoder p) TempBuffer (LeadingContent n) = (leadOut, None)"
    and "Encode (encoder p) TempBuffer n = (nodeOut, None)"
    and "NUL \<in> set (removeLastEOL (leadOut @ nodeOut))"
  shows "printOne p n =
     (Some nulCharError,
      p\<lparr>printedMatches := printedMatches p \<or> countsAsPrinted n\<rparr>,
      GetWriterCall (Some n) #
      (if needsSeparator p n then [DocumentSeparator (ident w) sepOut] else []) @
      [LeadingContentOut TempBuffer leadOut, EncodeOut TempBuffer n nodeOut])"
  using assms
  by (simp add: printOne_def printNode_def nulSepBlock_def countsAsPrinted_def Let_def
      IndexByte_iff)

text \<open>
  C4. In NUL-separated mode, let the loop reach a node (every node before it was
  processed without error), let the sink for the node be obtained, the separator (if
  one is due) be printed, and the leading content and the node be encoded into the
  temporary buffer without error, and let the buffered bytes, after the trailing line
  terminator is removed, contain a NUL byte. Then the call returns the error "Can't
  serialize value because it contains NUL char and you are using NUL separated output";
  the last thing it did is the encoding of the node into the temporary buffer: no
  \<^verbatim>\<open>Write\<close> of the record or of the NUL terminator to the sink, no flush, no
  iteration for the nodes after it, and no appendix.
\<close>

theorem C4_nul_in_record:
  "nulSepOutput p \<and> ms \<noteq> [] \<and> explodeIfNeeded p ms = Inr (before @ n # after) \<and>
   primeFirstTime p (before @ n # after) = Inr p0 \<and>
   printLoop p0 before = (None, p1, ev1) \<and>
   GetWriter (printerWriter p) (Some n) = Inr w \<and>
   PrintDocumentSeparator (encoder p) (ident w) = (sepOut, sepErr) \<and>
   (needsSeparator p1 n \<longrightarrow> sepErr = None) \<and>
   PrintLeadingContent (encoder p) TempBuffer (LeadingContent n) = (leadOut, None) \<and>
   Encode (encoder p) TempBuffer n = (nodeOut, None) \<and>
   NUL \<in> set (removeLastEOL (leadOut @ nodeOut)) \<longrightarrow>
     PrintResults p ms =
       (Some nulCharError,
        p1\<lparr>printedMatches := printedMatches p1 \<or> countsAsPrinted n\<rparr>,
        (if \<not> CanHandleAliases (encoder p) then [Explode ms] else []) @ ev1 @
        GetWriterCall (Some n) #
        (if needsSeparator p1 n then [DocumentSeparator (ident w) sepOut] else []) @
        [LeadingContentOut TempBuffer leadOut, EncodeOut TempBuffer n nodeOut]) \<and>
     nulCharError =
       Error (''Can'' @ [CHR 0x27] @
         ''t serialize value because it contains NUL char and you are using NUL separated output'')"
proof
  assume h: "nulSepOutput p \<and> ms \<noteq> [] \<and> explodeIfNeeded p ms = Inr (before @ n # after) \<and>
   primeFirstTime p (before @ n # after) = Inr p0 \<and>
   printLoop p0 before = (None, p1, ev1) \<and>
   GetWriter (printerWriter p) (Some n) = Inr w \<and>
   PrintDocumentSeparator (encoder p) (ident w) = (sepOut, sepErr) \<and>
   (needsSeparator p1 n \<longrightarrow> sepErr = None) \<and>
   PrintLeadingContent (encoder p) TempBuffer (LeadingContent n) = (leadOut, None) \<and>
   Encode (encoder p) TempBuffer n = (nodeOut, None) \<and>
   NUL \<in> set (removeLastEOL (leadOut @ nodeOut))"
  then have prime: "primeFirstTime p (before @ n # after) = Inr p0"
    and loop: "printLoop p0 before = (None, p1, ev1)" by simp_all
  note f0 = primeFirstTime_fields [OF prime]
  note f1 = printLoop_fields [OF loop]
  from f0 f1 have same: "encoder p1 = encoder p" "printerWriter p1 = printerWriter p"
    "nulSepOutput p1 = nulSepOutput p" by simp_all
  from h same have a: "nulSepOutput p1"
    and b: "GetWriter (printerWriter p1) (Some n) = Inr w"
    and c: "PrintDocumentSeparator (encoder p1) (ident w) = (sepOut, sepErr)"
    and e: "PrintLeadingContent (encoder p1) TempBuffer (LeadingContent n) = (leadOut, None)"
    and f: "Encode (encoder p1) TempBuffer n = (nodeOut, None)"
    and g: "NUL \<in> set (removeLastEOL (leadOut @ nodeOut))"
    by simp_all
  from h have d: "needsSeparator p1 n \<longrightarrow> sepErr = None" by blast
  have one: "printOne p1 n =
     (Some nulCharError,
      p1\<lparr>printedMatches := printedMatches p1 \<or> countsAsPrinted n\<rparr>,
      GetWriterCall (Some n) #
      (if needsSeparator p1 n then [DocumentSeparator (ident w) sepOut] else []) @
      [LeadingContentOut TempBuffer leadOut, EncodeOut TempBuffer n nodeOut])"
    using a b c d e f g by (rule printOne_nul_in_record)
  have "printLoop p0 (before @ n # after) =
     (Some nulCharError,
      p1\<lparr>printedMatches := printedMatches p1 \<or> countsAsPrinted n\<rparr>,
      ev1 @ GetWriterCall (Some n) #
      (if needsSeparator p1 n then [DocumentSeparator (ident w) sepOut] else []) @
      [LeadingContentOut TempBuffer leadOut, EncodeOut TempBuffer n nodeOut])"
    by (simp add: printLoop_append loop one)
  with h have "PrintResults p ms =
       (Some nulCharError,
        p1\<lparr>printedMatches := printedMatches p1 \<or> countsAsPrinted n\<rparr>,
        (if \<not> CanHandleAliases (encoder p) then [Explode ms] else []) @ ev1 @
        GetWriterCall (Some n) #
        (if needsSeparator p1 n then [DocumentSeparator (ident w) sepOut] else []) @
        [LeadingContentOut TempBuffer leadOut, EncodeOut TempBuffer n nodeOut])"
    by (simp add: PrintResults_def Let_def)
  then show "PrintResults p ms =
       (Some nulCharError,
        p1\<lparr>printedMatches := printedMatches p1 \<or> countsAsPrinted n\<rparr>,
        (if \<not> CanHandleAliases (encoder p) then [Explode ms] else []) @ ev1 @
        GetWriterCall (Some n) #
        (if needsSeparator p1 n then [DocumentSeparator (ident w) sepOut] else []) @
        [LeadingContentOut TempBuffer leadOut, EncodeOut TempBuffer n nodeOut]) \<and>
     nulCharError =
       Error (''Can'' @ [CHR 0x27] @
         ''t serialize value because it contains NUL char and you are using NUL separated output'')"
    by (simp add: nulCharError_def)
qed

theorem C4_nul_in_record_witness:
  "PrintResults
     (SetNulSepOutput (NewPrinter (lineEncoder True) singleSink identityNavigator) True)
     [scalarNode ''!!str'' ''a'' 0 0, scalarNode ''!!str'' (''b'' @ [NUL] @ ''c'') 1 0,
      scalarNode ''!!str'' ''d'' 2 0] =
   (Some nulCharError,
    (SetNulSepOutput (NewPrinter (lineEncoder True) singleSink identityNavigator) True)
      \<lparr>firstTimePrinting := False, printedMatches := True\<rparr>,
    [GetWriterCall (Some (scalarNode ''!!str'' ''a'' 0 0)),
     LeadingContentOut TempBuffer [],
     EncodeOut TempBuffer (scalarNode ''!!str'' ''a'' 0 0) (''a'' @ [LF]),
     WriteCall 0 ''a'', WriteCall 0 [NUL], FlushCall 0,
     GetWriterCall (Some (scalarNode ''!!str'' (''b'' @ [NUL] @ ''c'') 1 0)),
     DocumentSeparator 0 (''---'' @ [LF]),
     LeadingContentOut TempBuffer [],
     EncodeOut TempBuffer (scalarNode ''!!str'' (''b'' @ [NUL] @ ''c'') 1 0)
       (''b'' @ [NUL] @ ''c'' @ [LF])])"
proof -
  let ?p = "SetNulSepOutput (NewPrinter (lineEncoder True) singleSink identityNavigator) True"
  let ?a = "scalarNode ''!!str'' ''a'' 0 0"
  let ?b = "scalarNode ''!!str'' (''b'' @ [NUL] @ ''c'') 1 0"
  let ?d = "scalarNode ''!!str'' ''d'' 2 0"
  let ?primed = "?p\<lparr>previousDocIndex := 0, previousFileIndex := 0, firstTimePrinting := False\<rparr>"
  let ?reached = "?primed\<lparr>printedMatches := True, previousDocIndex := 0\<rparr>"
  let ?ev1 = "[GetWriterCall (Some ?a), LeadingContentOut TempBuffer [],
     EncodeOut TempBuffer ?a (''a'' @ [LF]), WriteCall 0 ''a'', WriteCall 0 [NUL], FlushCall 0]"
  have h: "nulSepOutput ?p \<and> [?a, ?b, ?d] \<noteq> [] \<and>
     explodeIfNeeded ?p [?a, ?b, ?d] = Inr ([?a] @ ?b # [?d]) \<and>
     primeFirstTime ?p ([?a] @ ?b # [?d]) = Inr ?primed \<and>
     printLoop ?primed [?a] = (None, ?reached, ?ev1) \<and>
     GetWriter (printerWriter ?p) (Some ?b) = Inr stdoutWriter \<and>
     PrintDocumentSeparator (encoder ?p) (ident stdoutWriter) = (''---'' @ [LF], None) \<and>
     (needsSeparator ?reached ?b \<longrightarrow> (None :: error option) = None) \<and>
     PrintLeadingContent (encoder ?p) TempBuffer (LeadingContent ?b) = ([], None) \<and>
     Encode (encoder ?p) TempBuffer ?b = (''b'' @ [NUL] @ ''c'' @ [LF], None) \<and>
     NUL \<in> set (removeLastEOL ([] @ (''b'' @ [NUL] @ ''c'' @ [LF])))"
    by (simp add: run_defs)
  have sep: "needsSeparator ?reached ?b" by (simp add: run_defs)
  from C4_nul_in_record [of ?p "[?a, ?b, ?d]" "[?a]" ?b "[?d]" ?primed ?reached ?ev1 stdoutWriter
      "''---'' @ [LF]" None "[]" "''b'' @ [NUL] @ ''c'' @ [LF]", THEN mp, OF h] sep
  show ?thesis
    by (simp add: SetNulSepOutput_def NewPrinter_def lineEncoder_def stdoutWriter_def
        countsAsPrinted_def scalarNode_def)
qed

section \<open>Counting document separators\<close>

text \<open>
  As long as every node has the file index the printer was primed with, the loop
  prints one separator per boundary of the walk.
\<close>

lemma printLoop_separators_single_file:
  assumes "printLoop p ns = (None, p', ev)"
    and "\<forall>n\<in>set ns. FileIndex n = previousFileIndex p"
  shows "separatorEmissions ev =
    boundaryTransitions (previousDocIndex p, previousFileIndex p) ns"
  using assms
proof (induction ns arbitrary: p p' ev)
  case Nil
  then show ?case by simp
next
  case (Cons n ns)
  obtain r1 p1 ev1 where one: "printOne p n = (r1, p1, ev1)"
    by (cases "printOne p n") auto
  with Cons.prems have r1: "r1 = None" by (cases r1) auto
  obtain r2 p2 ev2 where rest: "printLoop p1 ns = (r2, p2, ev2)"
    by (cases "printLoop p1 ns") auto
  with one r1 Cons.prems have eq: "r2 = None" "ev = ev1 @ ev2" by simp_all
  from Cons.prems(2) have same: "FileIndex n = previousFileIndex p" by simp
  from printOne_success [of p n p1 ev1] one r1
  have p1: "previousDocIndex p1 = Document n" "previousFileIndex p1 = previousFileIndex p"
    and ev1: "separatorEmissions ev1 = (if needsSeparator p n then 1 else 0)"
    by auto
  from same have "needsSeparator p n \<longleftrightarrow>
      (previousDocIndex p, previousFileIndex p) \<noteq> (Document n, FileIndex n) \<and>
      \<not> commentsStartWithSepExp_MatchString (LeadingContent n)"
    by (auto simp: needsSeparator_def)
  with ev1 have step: "separatorEmissions ev1 =
      (if (previousDocIndex p, previousFileIndex p) \<noteq> (Document n, FileIndex n) \<and>
          \<not> commentsStartWithSepExp_MatchString (LeadingContent n) then 1 else 0)"
    by simp
  from Cons.prems(2) p1 have "\<forall>m\<in>set ns. FileIndex m = previousFileIndex p1" by simp
  from Cons.IH [OF _ this, of p2 ev2] rest eq(1) p1 same
  have "separatorEmissions ev2 = boundaryTransitions (Document n, FileIndex n) ns" by simp
  with step eq(2) show ?case by simp
qed

lemma PrintResults_separators_single_file:
  assumes run: "PrintResults p ms = (None, p', evs)" and ne: "ms \<noteq> []"
    and fresh: "firstTimePrinting p"
    and nodes: "explodeIfNeeded p ms = Inr nodes"
    and same: "\<forall>n\<in>set nodes. FileIndex n = FileIndex (hd nodes)"
  shows "separatorEmissions evs = initialTransitions nodes"
  using run ne
proof (cases rule: PrintResults_nonempty)
  case (loopDone nodes' p1 p2 ev1 ev2)
  with nodes have prime: "primeFirstTime p nodes = Inr p1"
    and loop: "printLoop p1 nodes = (None, p2, ev1)" by simp_all
  from prime fresh obtain n rest where ns: "nodes = n # rest"
    and p1: "previousDocIndex p1 = Document n" "previousFileIndex p1 = FileIndex n"
    by (auto simp: primeFirstTime_def split: list.splits)
  from same ns p1 have "\<forall>m\<in>set nodes. FileIndex m = previousFileIndex p1" by simp
  from printLoop_separators_single_file [OF loop this] ns p1
  have "separatorEmissions ev1 = initialTransitions nodes"
    by (simp add: initialTransitions_def)
  moreover have "separatorEmissions evs = separatorEmissions ev1"
    using loopDone(5) pipeAppendix_events [OF loopDone(4)] by simp
  ultimately show ?thesis by simp
qed simp_all

text \<open>
  C1. The count of separators is not the count of boundaries once the file index
  changes: the last-seen file index stays that of the first node. Nodes of document 0
  in files 0, 1, 1: one boundary, two separators (every node of file 1 gets one).
  Nodes of document 0 in files 0, 1, 0: two boundaries, one separator (the return to
  file 0 gets none).
\<close>

theorem C1_separators_after_file_change:
  "fst (PrintResults (NewPrinter (lineEncoder True) singleSink identityNavigator)
      [scalarNode ''!!str'' ''a'' 0 0, scalarNode ''!!str'' ''b'' 0 1,
       scalarNode ''!!str'' ''c'' 0 1]) = None \<and>
   initialTransitions
      [scalarNode ''!!str'' ''a'' 0 0, scalarNode ''!!str'' ''b'' 0 1,
       scalarNode ''!!str'' ''c'' 0 1] = 1 \<and>
   separatorEmissions (snd (snd (PrintResults
      (NewPrinter (lineEncoder True) singleSink identityNavigator)
      [scalarNode ''!!str'' ''a'' 0 0, scalarNode ''!!str'' ''b'' 0 1,
       scalarNode ''!!str'' ''c'' 0 1]))) = 2 \<and>
   fst (PrintResults (NewPrinter (lineEncoder True) singleSink identityNavigator)
      [scalarNode ''!!str'' ''a'' 0 0, scalarNode ''!!str'' ''b'' 0 1,
       scalarNode ''!!str'' ''c'' 0 0]) = None \<and>
   initialTransitions
      [scalarNode ''!!str'' ''a'' 0 0, scalarNode ''!!str'' ''b'' 0 1,
       scalarNode ''!!str'' ''c'' 0 0] = 2 \<and>
   separatorEmissions (snd (snd (PrintResults
      (NewPrinter (lineEncoder True) singleSink identityNavigator)
      [scalarNode ''!!str'' ''a'' 0 0, scalarNode ''!!str'' ''b'' 0 1,
       scalarNode ''!!str'' ''c'' 0 0]))) = 1"
  by (simp add: run_defs initialTransitions_def)

end
